theory Spec2Isabelle
  imports Complex_Main "HOL-Library.Word"
begin

unbundle bit_operations_syntax

section \<open>Data model (types.ts)\<close>

datatype ItemStatus = Untouched | Pass | Info | Attention | Moderate | Dangerous

datatype SectionStatus = Pending | InProgress | Completed

text \<open>
  Optional fields of the TypeScript interfaces (\<^verbatim>\<open>options?\<close>, \<^verbatim>\<open>selectedOption?\<close>,
  \<^verbatim>\<open>isHidden?\<close>, \<^verbatim>\<open>photoUrl?\<close>, ...) are options: \<open>None\<close> is the absent (undefined)
  field. The field \<^verbatim>\<open>id\<close> is called \<open>item_id\<close>, \<open>sec_id\<close> or \<open>profile_id\<close> and the field
  \<^verbatim>\<open>status\<close> is \<open>item_status\<close> or \<open>sec_status\<close> (and \<^verbatim>\<open>notes\<close> is
  \<open>item_notes\<close>), since record fields share one name space.
\<close>

record InspectionChecklistItem =
  item_id :: string
  label :: string
  item_status :: ItemStatus
  item_notes :: string
  photos :: "string list"
  options :: "string list option"
  selectedOption :: "string option"
  isHidden :: "bool option"

record InspectionSection =
  sec_id :: string
  title :: string
  iconName :: string
  description :: string
  items :: "InspectionChecklistItem list"
  photoUrl :: "string option"
  sec_status :: SectionStatus

record InspectionProfile =
  profile_id :: string
  savedReportId :: "string option"
  shortId :: "string option"
  userId :: "string option"
  address :: string
  googleMapsUrl :: "string option"
  propertyType :: string
  floors :: int
  baths :: int
  bedrooms :: int
  sqft :: "int option"
  yearBuilt :: "string option"
  occupancy :: "string option"
  pets :: "string option"
  weather :: "string option"
  temperatureOutside :: "string option"
  temperatureInside :: "string option"
  gasType :: "string option"
  sewerType :: "string option"
  waterType :: "string option"
  electricPanel :: "string option"
  generatorType :: "string option"
  inspectorName :: string
  createdAt :: string
  sections :: "InspectionSection list"

text \<open>JavaScript truthiness of an optional string and of an optional boolean.\<close>

fun truthy_str :: "string option \<Rightarrow> bool" where
  "truthy_str None = False"
| "truthy_str (Some s) = (s \<noteq> [])"

fun truthy_bool :: "bool option \<Rightarrow> bool" where
  "truthy_bool None = False"
| "truthy_bool (Some b) = b"

section \<open>Data mutators (the state updaters of the App component)\<close>

text \<open>
  Each mutator of the component calls \<^verbatim>\<open>setInspection(prev => ...)\<close> and the updater returns
  \<^verbatim>\<open>null\<close> on a \<^verbatim>\<open>null\<close> state. The functions below are the updaters on a profile; \<open>on_state\<close>
  lifts one to the nullable state.
\<close>

definition on_state ::
  "(InspectionProfile \<Rightarrow> InspectionProfile) \<Rightarrow> InspectionProfile option \<Rightarrow> InspectionProfile option"
where
  "on_state f prev = (case prev of None \<Rightarrow> None | Some p \<Rightarrow> Some (f p))"

text \<open>The section status computed inside \<^verbatim>\<open>updateItemStatus\<close> from the updated items.\<close>

definition section_status_of :: "InspectionChecklistItem list \<Rightarrow> SectionStatus" where
  "section_status_of updatedItems =
     (let total = length updatedItems;
          untouched = length (filter (\<lambda>i. item_status i = Untouched) updatedItems);
          completed = total - untouched
      in if completed = total then Completed
         else if completed > 0 then InProgress
         else Pending)"

definition updateItemStatus ::
  "string \<Rightarrow> string \<Rightarrow> ItemStatus \<Rightarrow> InspectionProfile \<Rightarrow> InspectionProfile"
where
  "updateItemStatus sectionId itemId st prev =
     prev\<lparr>sections := map (\<lambda>sec.
        if sec_id sec \<noteq> sectionId then sec
        else (let updatedItems =
                    map (\<lambda>item. if item_id item = itemId then item\<lparr>item_status := st\<rparr> else item)
                        (items sec)
              in sec\<lparr>items := updatedItems, sec_status := section_status_of updatedItems\<rparr>))
        (sections prev)\<rparr>"

definition updateItemOption ::
  "string \<Rightarrow> string \<Rightarrow> string \<Rightarrow> InspectionProfile \<Rightarrow> InspectionProfile"
where
  "updateItemOption sectionId itemId opt prev =
     prev\<lparr>sections := map (\<lambda>sec.
        if sec_id sec \<noteq> sectionId then sec
        else sec\<lparr>items :=
               map (\<lambda>item. if item_id item = itemId then item\<lparr>selectedOption := Some opt\<rparr> else item)
                   (items sec)\<rparr>)
        (sections prev)\<rparr>"

definition updateItemNote ::
  "string \<Rightarrow> string \<Rightarrow> string \<Rightarrow> InspectionProfile \<Rightarrow> InspectionProfile"
where
  "updateItemNote sectionId itemId txt prev =
     prev\<lparr>sections := map (\<lambda>sec.
        if sec_id sec \<noteq> sectionId then sec
        else sec\<lparr>items :=
               map (\<lambda>item. if item_id item = itemId then item\<lparr>item_notes := txt\<rparr> else item)
                   (items sec)\<rparr>)
        (sections prev)\<rparr>"

definition toggleItemVisibility ::
  "string \<Rightarrow> string \<Rightarrow> bool \<Rightarrow> InspectionProfile \<Rightarrow> InspectionProfile"
where
  "toggleItemVisibility sectionId itemId hidden prev =
     prev\<lparr>sections := map (\<lambda>sec.
        if sec_id sec \<noteq> sectionId then sec
        else sec\<lparr>items :=
               map (\<lambda>item. if item_id item = itemId then item\<lparr>isHidden := Some hidden\<rparr> else item)
                   (items sec)\<rparr>)
        (sections prev)\<rparr>"

text \<open>The "Show n hidden items" button of the section view: un-hides every item of one section.\<close>

definition showHiddenItems :: "string \<Rightarrow> InspectionProfile \<Rightarrow> InspectionProfile" where
  "showHiddenItems activeSectionId prev =
     prev\<lparr>sections := map (\<lambda>s.
        if sec_id s \<noteq> activeSectionId then s
        else s\<lparr>items := map (\<lambda>i. i\<lparr>isHidden := Some False\<rparr>) (items s)\<rparr>)
        (sections prev)\<rparr>"

text \<open>
  \<^verbatim>\<open>handleCapturePhoto\<close>: the camera target is a section id and an optional item id, and the
  branch taken is decided by the truthiness of the item id.
\<close>

record CameraTarget =
  target_sectionId :: string
  target_itemId :: "string option"

definition handleCapturePhoto ::
  "CameraTarget \<Rightarrow> string \<Rightarrow> InspectionProfile \<Rightarrow> InspectionProfile"
where
  "handleCapturePhoto cameraTarget imageData prev =
     prev\<lparr>sections := map (\<lambda>sec.
        if sec_id sec \<noteq> target_sectionId cameraTarget then sec
        else if truthy_str (target_itemId cameraTarget) then
          sec\<lparr>items :=
                map (\<lambda>item. if Some (item_id item) = target_itemId cameraTarget
                             then item\<lparr>photos := photos item @ [imageData]\<rparr> else item)
                    (items sec)\<rparr>
        else sec\<lparr>photoUrl := Some imageData\<rparr>)
        (sections prev)\<rparr>"

text \<open>\<^verbatim>\<open>photos.filter((_, idx) => idx !== photoIndex)\<close>\<close>

fun remove_index :: "nat \<Rightarrow> 'a list \<Rightarrow> 'a list" where
  "remove_index k [] = []"
| "remove_index 0 (x # xs) = xs"
| "remove_index (Suc k) (x # xs) = x # remove_index k xs"

definition deletePhoto ::
  "string \<Rightarrow> string \<Rightarrow> nat \<Rightarrow> InspectionProfile \<Rightarrow> InspectionProfile"
where
  "deletePhoto sectionId itemId photoIndex prev =
     prev\<lparr>sections := map (\<lambda>sec.
        if sec_id sec \<noteq> sectionId then sec
        else sec\<lparr>items :=
               map (\<lambda>item. if item_id item \<noteq> itemId then item
                            else item\<lparr>photos := remove_index photoIndex (photos item)\<rparr>)
                   (items sec)\<rparr>)
        (sections prev)\<rparr>"

text \<open>
  The state patch of \<^verbatim>\<open>processImageAnalysis\<close>, applied when the image analysis has returned
  \<open>descr\<close> (the source's \<^verbatim>\<open>description\<close>): the template literal \<^verbatim>\<open>`${i.notes}\nAI Note: ${description}`\<close> when the notes
  are truthy (non-empty), the description alone otherwise.
\<close>

definition ai_note :: "string \<Rightarrow> string \<Rightarrow> string" where
  "ai_note prior descr =
     (if prior \<noteq> [] then prior @ [CHR 0x0A] @ ''AI Note: '' @ descr else descr)"

definition applyImageAnalysis ::
  "string \<Rightarrow> string \<Rightarrow> string \<Rightarrow> InspectionProfile \<Rightarrow> InspectionProfile"
where
  "applyImageAnalysis sectionId itemId descr prev =
     prev\<lparr>sections := map (\<lambda>sec.
        if sec_id sec \<noteq> sectionId then sec
        else sec\<lparr>items :=
               map (\<lambda>i. if item_id i = itemId then i\<lparr>item_notes := ai_note (item_notes i) descr\<rparr> else i)
                   (items sec)\<rparr>)
        (sections prev)\<rparr>"

text \<open>\<^verbatim>\<open>handleAddSection\<close> and \<^verbatim>\<open>handleAddItem\<close>: append-only growth.\<close>

definition handleAddSection :: "InspectionSection \<Rightarrow> InspectionProfile \<Rightarrow> InspectionProfile" where
  "handleAddSection newSection prev = prev\<lparr>sections := sections prev @ [newSection]\<rparr>"

definition handleAddItem ::
  "string \<Rightarrow> InspectionChecklistItem list \<Rightarrow> InspectionProfile \<Rightarrow> InspectionProfile"
where
  "handleAddItem activeSectionId newItems prev =
     prev\<lparr>sections := map (\<lambda>s.
        if sec_id s \<noteq> activeSectionId then s
        else s\<lparr>items := items s @ newItems\<rparr>)
        (sections prev)\<rparr>"


text \<open>
  \<^verbatim>\<open>processImageAnalysis\<close>: the item is looked up in the rendered document \<open>inspection\<close>; only
  when it is found is the analysis requested and its result \<open>descr\<close> patched into the current
  state \<open>prev\<close>. (\<^verbatim>\<open>analyzeInspectionImage\<close> catches its own failures and always returns text.)
\<close>

definition processImageAnalysis ::
  "string \<Rightarrow> string \<Rightarrow> string \<Rightarrow> InspectionProfile option \<Rightarrow> InspectionProfile option
     \<Rightarrow> InspectionProfile option"
where
  "processImageAnalysis sectionId itemId descr inspection prev =
     (case inspection of
        None \<Rightarrow> prev
      | Some insp \<Rightarrow>
          (case find (\<lambda>s. sec_id s = sectionId) (sections insp) of
             None \<Rightarrow> prev
           | Some section \<Rightarrow>
               (case find (\<lambda>i. item_id i = itemId) (items section) of
                  None \<Rightarrow> prev
                | Some item \<Rightarrow> on_state (applyImageAnalysis sectionId itemId descr) prev)))"

subsection \<open>Mutation sequences\<close>

datatype Mutation =
    SetItemStatus string string ItemStatus
  | SetItemOption string string string
  | SetItemNotes string string string
  | AppendAiNote string string string
  | SetItemVisibility string string bool
  | ShowHidden string
  | AddPhoto CameraTarget string
  | RemovePhoto string string nat
  | AppendSection InspectionSection
  | AppendItems string "InspectionChecklistItem list"

fun apply_mutation :: "Mutation \<Rightarrow> InspectionProfile \<Rightarrow> InspectionProfile" where
  "apply_mutation (SetItemStatus sectionId itemId st) d = updateItemStatus sectionId itemId st d"
| "apply_mutation (SetItemOption sectionId itemId opt) d = updateItemOption sectionId itemId opt d"
| "apply_mutation (SetItemNotes sectionId itemId txt) d = updateItemNote sectionId itemId txt d"
| "apply_mutation (AppendAiNote sectionId itemId descr) d = applyImageAnalysis sectionId itemId descr d"
| "apply_mutation (SetItemVisibility sectionId itemId hidden) d = toggleItemVisibility sectionId itemId hidden d"
| "apply_mutation (ShowHidden sectionId) d = showHiddenItems sectionId d"
| "apply_mutation (AddPhoto cameraTarget imageData) d = handleCapturePhoto cameraTarget imageData d"
| "apply_mutation (RemovePhoto sectionId itemId photoIndex) d = deletePhoto sectionId itemId photoIndex d"
| "apply_mutation (AppendSection newSection) d = handleAddSection newSection d"
| "apply_mutation (AppendItems sectionId newItems) d = handleAddItem sectionId newItems d"

definition run_mutations :: "Mutation list \<Rightarrow> InspectionProfile \<Rightarrow> InspectionProfile" where
  "run_mutations ms d = fold apply_mutation ms d"

subsection \<open>Predicates on documents\<close>

text \<open>The lookup at the head of \<^verbatim>\<open>processImageAnalysis\<close> finds the item.\<close>

definition item_found :: "InspectionProfile \<Rightarrow> string \<Rightarrow> string \<Rightarrow> bool" where
  "item_found d sectionId itemId =
     (case find (\<lambda>s. sec_id s = sectionId) (sections d) of
        None \<Rightarrow> False
      | Some section \<Rightarrow> find (\<lambda>i. item_id i = itemId) (items section) \<noteq> None)"

definition has_section :: "InspectionProfile \<Rightarrow> string \<Rightarrow> bool" where
  "has_section d sectionId = (\<exists>sec \<in> set (sections d). sec_id sec = sectionId)"

definition has_item :: "InspectionProfile \<Rightarrow> string \<Rightarrow> string \<Rightarrow> bool" where
  "has_item d sectionId itemId =
     (\<exists>sec \<in> set (sections d). sec_id sec = sectionId \<and> (\<exists>i \<in> set (items sec). item_id i = itemId))"

text \<open>The status rule of the data model, as the specification words it.\<close>

definition status_rule :: "InspectionSection \<Rightarrow> bool" where
  "status_rule sec =
     ((sec_status sec = Completed) = (\<forall>i \<in> set (items sec). item_status i \<noteq> Untouched) \<and>
      (sec_status sec = Pending) = (\<forall>i \<in> set (items sec). item_status i = Untouched) \<and>
      (sec_status sec = InProgress) =
         (\<not> (\<forall>i \<in> set (items sec). item_status i \<noteq> Untouched) \<and>
          \<not> (\<forall>i \<in> set (items sec). item_status i = Untouched)))"

definition all_sections_ruled :: "InspectionProfile \<Rightarrow> bool" where
  "all_sections_ruled d = (\<forall>sec \<in> set (sections d). status_rule sec)"

text \<open>The rule restricted to the sections that have at least one item.\<close>

definition nonempty_sections_ruled :: "InspectionProfile \<Rightarrow> bool" where
  "nonempty_sections_ruled d = (\<forall>sec \<in> set (sections d). items sec \<noteq> [] \<longrightarrow> status_rule sec)"

text \<open>
  A section as the generators (\<^verbatim>\<open>generateInspectionPlan\<close>, \<^verbatim>\<open>generateSingleSection\<close>) build it:
  status \<^verbatim>\<open>'pending'\<close>, every item \<^verbatim>\<open>'untouched'\<close>.
\<close>

definition fresh_section :: "InspectionSection \<Rightarrow> bool" where
  "fresh_section sec =
     (sec_status sec = Pending \<and> (\<forall>i \<in> set (items sec). item_status i = Untouched))"

text \<open>The mutations other than the appending of items; an appended section is a generated one.\<close>

fun keeps_rule :: "Mutation \<Rightarrow> bool" where
  "keeps_rule (AppendItems sectionId newItems) = False"
| "keeps_rule (AppendSection newSection) = fresh_section newSection"
| "keeps_rule m = True"

text \<open>What \<^verbatim>\<open>updateItemStatus\<close> does to a section whose item list it leaves as it is.\<close>

definition rederive_status :: "string \<Rightarrow> InspectionProfile \<Rightarrow> InspectionProfile" where
  "rederive_status sectionId d =
     d\<lparr>sections := map (\<lambda>sec. if sec_id sec = sectionId
                                then sec\<lparr>sec_status := section_status_of (items sec)\<rparr> else sec)
                         (sections d)\<rparr>"

text \<open>A document with every absent \<^verbatim>\<open>isHidden\<close> field read as its default \<^verbatim>\<open>false\<close>.\<close>

definition default_hidden :: "InspectionProfile \<Rightarrow> InspectionProfile" where
  "default_hidden d =
     d\<lparr>sections := map (\<lambda>sec. sec\<lparr>items :=
           map (\<lambda>i. i\<lparr>isHidden := Some (truthy_bool (isHidden i))\<rparr>) (items sec)\<rparr>) (sections d)\<rparr>"


definition targets_visible :: "InspectionProfile \<Rightarrow> string \<Rightarrow> string \<Rightarrow> bool" where
  "targets_visible d sectionId itemId =
     (\<forall>sec \<in> set (sections d). sec_id sec = sectionId \<longrightarrow>
        (\<forall>i \<in> set (items sec). item_id i = itemId \<longrightarrow> \<not> truthy_bool (isHidden i)))"

definition targets_shown :: "InspectionProfile \<Rightarrow> string \<Rightarrow> string \<Rightarrow> bool" where
  "targets_shown d sectionId itemId =
     (\<forall>sec \<in> set (sections d). sec_id sec = sectionId \<longrightarrow>
        (\<forall>i \<in> set (items sec). item_id i = itemId \<longrightarrow> isHidden i = Some False))"

section \<open>Progress (calculateProgress)\<close>

text \<open>
  JavaScript numbers are IEEE 754 binary64 values. The finite ones are rationals, and the
  result of an arithmetic operation is the exact result rounded to the nearest binary64 value,
  ties to the even significand: \<open>fl\<close>. For \<open>x > 0\<close>, \<open>expo x\<close> is the exponent \<open>e\<close> with
  \<open>2^e \<le> x < 2^(e+1)\<close> (found from the bit lengths \<open>ilog2\<close> of numerator and denominator) and
  the significand has 53 bits. (Overflow and subnormal values are
  not modelled: the values this program computes are 0 or lie between \<open>2^-53\<close> and \<open>128\<close>.)
\<close>

definition pow2 :: "int \<Rightarrow> rat" where
  "pow2 e = (if 0 \<le> e then 2 ^ nat e else 1 / 2 ^ nat (- e))"

function ilog2 :: "int \<Rightarrow> int" where
  "ilog2 n = (if n < 2 then 0 else 1 + ilog2 (n div 2))"
  by pat_completeness auto
termination
  by (relation "measure nat") auto

declare ilog2.simps [simp del]

definition expo :: "rat \<Rightarrow> int" where
  "expo x = (let (p, q) = quotient_of x; e0 = ilog2 p - ilog2 q
             in if x < pow2 e0 then e0 - 1 else e0)"

definition round_half_even :: "rat \<Rightarrow> int" where
  "round_half_even z =
     (let f = \<lfloor>z\<rfloor>; r = z - of_int f
      in if r < 1 / 2 then f else if 1 / 2 < r then f + 1 else if even f then f else f + 1)"

definition fl :: "rat \<Rightarrow> rat" where
  "fl x = (if x = 0 then 0
           else (let a = \<bar>x\<bar>; e = expo a
                 in sgn x * of_int (round_half_even (a * pow2 (52 - e))) * pow2 (e - 52)))"

definition js_div :: "rat \<Rightarrow> rat \<Rightarrow> rat" where
  "js_div a b = fl (a / b)"

definition js_mul :: "rat \<Rightarrow> rat \<Rightarrow> rat" where
  "js_mul a b = fl (a * b)"

text \<open>\<^verbatim>\<open>Math.round\<close>: the nearest integer, a tie going towards \<open>+\<infinity>\<close>.\<close>

definition Math_round :: "rat \<Rightarrow> int" where
  "Math_round x = \<lfloor>x + 1 / 2\<rfloor>"

definition calculateProgress :: "InspectionProfile option \<Rightarrow> int" where
  "calculateProgress inspection =
     (case inspection of
        None \<Rightarrow> 0
      | Some insp \<Rightarrow>
          (let visibleItems = filter (\<lambda>i. \<not> truthy_bool (isHidden i))
                                     (concat (map items (sections insp)));
               totalItems = length visibleItems;
               completedItems = length (filter (\<lambda>i. item_status i \<noteq> Untouched) visibleItems)
           in if totalItems = 0 then 0
              else Math_round (js_mul (js_div (of_nat completedItems) (of_nat totalItems)) 100)))"

text \<open>
  The specification's formula, in exact arithmetic: round(100 \<times> completed / total) over the
  visible items, and 0 when there is none.
\<close>

definition visible_items :: "InspectionProfile \<Rightarrow> InspectionChecklistItem list" where
  "visible_items d = filter (\<lambda>i. \<not> truthy_bool (isHidden i)) (concat (map items (sections d)))"

definition progress_formula :: "InspectionProfile \<Rightarrow> int" where
  "progress_formula d =
     (let total = length (visible_items d);
          done = length (filter (\<lambda>i. item_status i \<noteq> Untouched) (visible_items d))
      in if total = 0 then 0 else \<lfloor>100 * rat_of_nat done / rat_of_nat total + 1 / 2\<rfloor>)"


section \<open>Identifier generator (supabaseService.ts)\<close>

text \<open>
  The random source: \<open>rnd k\<close> is the value of the \<open>k\<close>-th call of \<^verbatim>\<open>Math.random()\<close>, and the
  generators return the position of the next unused draw with their result.
\<close>

type_synonym random_source = "nat \<Rightarrow> rat"

text \<open>\<^verbatim>\<open>x | 0\<close>: truncation towards zero, wrapped into the signed 32-bit range.\<close>

definition to_int32 :: "rat \<Rightarrow> int" where
  "to_int32 x =
     (let t = (if 0 \<le> x then \<lfloor>x\<rfloor> else \<lceil>x\<rceil>); m = t mod 2 ^ 32
      in if 2 ^ 31 \<le> m then m - 2 ^ 32 else m)"

definition hex_digit :: "nat \<Rightarrow> char" where
  "hex_digit v = ''0123456789abcdef'' ! (v mod 16)"

text \<open>\<^verbatim>\<open>v.toString(16)\<close> on an integer.\<close>

fun nat_to_hex :: "nat \<Rightarrow> string" where
  "nat_to_hex n = (if n < 16 then [hex_digit n] else nat_to_hex (n div 16) @ [hex_digit (n mod 16)])"

definition to_hex :: "int \<Rightarrow> string" where
  "to_hex v = (if v < 0 then CHR ''-'' # nat_to_hex (nat (- v)) else nat_to_hex (nat v))"

text \<open>
  \<^verbatim>\<open>template.replace(/[xy]/g, c => ...)\<close>: every \<^verbatim>\<open>x\<close> and \<^verbatim>\<open>y\<close> of the template, from left
  to right, is replaced by the text the callback returns; the callback draws one random number.
  (The product \<^verbatim>\<open>Math.random() * 16\<close> is exact in binary64: a scaling by a power of two.)
\<close>

fun replace_xy :: "string \<Rightarrow> random_source \<Rightarrow> nat \<Rightarrow> string \<times> nat" where
  "replace_xy [] rnd k = ([], k)"
| "replace_xy (c # cs) rnd k =
     (if c = CHR ''x'' \<or> c = CHR ''y'' then
        (let r = to_int32 (rnd k * 16);
             v = (if c = CHR ''x'' then r else (r AND 3) OR 8);
             (rest, k') = replace_xy cs rnd (Suc k)
         in (to_hex v @ rest, k'))
      else (let (rest, k') = replace_xy cs rnd k in (c # rest, k')))"

text \<open>
  Modelled from the spec: \<^verbatim>\<open>crypto.randomUUID\<close> is a function of the platform, not of this
  repository. The specification (4.3) describes its result as a "cryptographically-random
  128-bit value formatted as the canonical hyphenated hex UUID string": the 32 hexadecimal
  digits of the value, most significant first, in groups of 8, 4, 4, 4 and 12. (The platform
  fixes six of the 128 bits, the version and the variant; its results are among the strings below.)
\<close>

definition nibble :: "128 word \<Rightarrow> nat \<Rightarrow> nat" where
  "nibble w k = (unat w div 16 ^ (31 - k)) mod 16"

definition hex_digits :: "128 word \<Rightarrow> nat \<Rightarrow> nat \<Rightarrow> string" where
  "hex_digits w start n = map (\<lambda>k. hex_digit (nibble w k)) [start..<start + n]"

definition randomUUID :: "128 word \<Rightarrow> string" where
  "randomUUID w =
     hex_digits w 0 8 @ ''-'' @ hex_digits w 8 4 @ ''-'' @ hex_digits w 12 4 @ ''-'' @
     hex_digits w 16 4 @ ''-'' @ hex_digits w 20 12"

text \<open>
  \<open>crypto\<close> is \<open>Some w\<close> when \<^verbatim>\<open>crypto.randomUUID\<close> is a function (and \<open>w\<close> is the random value it
  formats at this call), \<open>None\<close> when the fallback runs.
\<close>

definition generateUUID :: "128 word option \<Rightarrow> random_source \<Rightarrow> nat \<Rightarrow> string \<times> nat" where
  "generateUUID crypto rnd k =
     (case crypto of
        Some w \<Rightarrow> (randomUUID w, k)
      | None \<Rightarrow> replace_xy ''xxxxxxxx-xxxx-4xxx-yxxx-xxxxxxxxxxxx'' rnd k)"

definition chars :: string where
  "chars = ''abcdefghijklmnopqrstuvwxyzABCDEFGHIJKLMNOPQRSTUVWXYZ0123456789''"

text \<open>\<^verbatim>\<open>s.charAt(i)\<close>: the empty string when the index is out of range.\<close>

definition charAt :: "string \<Rightarrow> int \<Rightarrow> string" where
  "charAt s i = (if 0 \<le> i \<and> i < int (length s) then [s ! nat i] else [])"

text \<open>The loop \<^verbatim>\<open>for (let i = 0; i < 9; i++) result += chars.charAt(...)\<close>, \<open>n\<close> rounds to go.\<close>

fun short_id_loop :: "nat \<Rightarrow> random_source \<Rightarrow> nat \<Rightarrow> string \<Rightarrow> string \<times> nat" where
  "short_id_loop 0 rnd k result = (result, k)"
| "short_id_loop (Suc n) rnd k result =
     short_id_loop n rnd (Suc k)
       (result @ charAt chars \<lfloor>js_mul (rnd k) (rat_of_nat (length chars))\<rfloor>)"

definition generateShortId :: "random_source \<Rightarrow> nat \<Rightarrow> string \<times> nat" where
  "generateShortId rnd k = short_id_loop 9 rnd k []"

subsection \<open>The identifier test of the load routine\<close>

text \<open>
  \<^verbatim>\<open>/^[0-9a-f]{8}-[0-9a-f]{4}-[0-9a-f]{4}-[0-9a-f]{4}-[0-9a-f]{12}$/i.test(s)\<close>: the matcher
  consumes the string from the left, group by group; \<^verbatim>\<open>$\<close> (without the multiline flag)
  demands that nothing is left.
\<close>

definition is_hex :: "char \<Rightarrow> bool" where
  "is_hex c = (c \<in> set ''0123456789abcdefABCDEF'')"

fun take_hex :: "nat \<Rightarrow> string \<Rightarrow> string option" where
  "take_hex 0 s = Some s"
| "take_hex (Suc n) [] = None"
| "take_hex (Suc n) (c # s) = (if is_hex c then take_hex n s else None)"

fun take_dash :: "string \<Rightarrow> string option" where
  "take_dash [] = None"
| "take_dash (c # s) = (if c = CHR ''-'' then Some s else None)"

definition isUuid :: "string \<Rightarrow> bool" where
  "isUuid s =
     (case take_hex 8 s of None \<Rightarrow> False | Some s1 \<Rightarrow>
      case take_dash s1 of None \<Rightarrow> False | Some s2 \<Rightarrow>
      case take_hex 4 s2 of None \<Rightarrow> False | Some s3 \<Rightarrow>
      case take_dash s3 of None \<Rightarrow> False | Some s4 \<Rightarrow>
      case take_hex 4 s4 of None \<Rightarrow> False | Some s5 \<Rightarrow>
      case take_dash s5 of None \<Rightarrow> False | Some s6 \<Rightarrow>
      case take_hex 4 s6 of None \<Rightarrow> False | Some s7 \<Rightarrow>
      case take_dash s7 of None \<Rightarrow> False | Some s8 \<Rightarrow>
      case take_hex 12 s8 of None \<Rightarrow> False | Some s9 \<Rightarrow> s9 = [])"

text \<open>
  The specification's words: a canonical 36-character hyphenated hex identifier, 8-4-4-4-12.
\<close>

definition hex_group :: "string \<Rightarrow> bool" where
  "hex_group g = (\<forall>c \<in> set g. is_hex c)"

definition uuid_shape :: "string \<Rightarrow> bool" where
  "uuid_shape s =
     (length s = 36 \<and>
      hex_group (take 8 s) \<and> s ! 8 = CHR ''-'' \<and>
      hex_group (take 4 (drop 9 s)) \<and> s ! 13 = CHR ''-'' \<and>
      hex_group (take 4 (drop 14 s)) \<and> s ! 18 = CHR ''-'' \<and>
      hex_group (take 4 (drop 19 s)) \<and> s ! 23 = CHR ''-'' \<and>
      hex_group (drop 24 s))"


text \<open>
  How a template character and the character it becomes are related: an \<^verbatim>\<open>x\<close> or \<^verbatim>\<open>y\<close> becomes
  a hexadecimal digit, any other character stays. \<open>hexy\<close> are the template characters whose
  place a hexadecimal digit takes.
\<close>

definition filled :: "char \<Rightarrow> char \<Rightarrow> bool" where
  "filled c c' = (if c = CHR ''x'' \<or> c = CHR ''y'' then is_hex c' else c' = c)"

definition hexy :: "char \<Rightarrow> bool" where
  "hexy c = (c = CHR ''x'' \<or> c = CHR ''y'' \<or> is_hex c)"

section \<open>Persistence gateway (supabaseService.ts)\<close>

subsection \<open>The local fallback store\<close>

text \<open>
  The text stored under \<^verbatim>\<open>chrp_inspections\<close>, as the two routines see it: nothing readable
  (\<^verbatim>\<open>safeGetLocalStorage\<close> returns \<^verbatim>\<open>null\<close>, or the empty text: \<^verbatim>\<open>!existing\<close>), a text on which
  \<^verbatim>\<open>JSON.parse\<close> throws, or an object of records by primary key, in the order of its keys.
\<close>

record LocalRecord =
  rec_id :: string
  rec_data :: "InspectionProfile option"
  rec_report_data :: "InspectionProfile option"
  rec_created_at :: string

datatype LocalStore =
    LsNull
  | LsUnparsable
  | LsMap "(string \<times> LocalRecord) list"

datatype JsError = SyntaxError | TypeError

text \<open>
  \<^verbatim>\<open>map[key] = value\<close> on an object whose properties are listed in JavaScript's order: the
  keys that are array indices (canonical decimal numerals below \<open>2^32 - 1\<close>) in ascending order
  first, then the other keys in the order of their creation. A present key keeps its place; a
  new key goes to its place among the indices, or to the end.
\<close>

definition is_digit :: "char \<Rightarrow> bool" where
  "is_digit c = (c \<in> set ''0123456789'')"

definition dec_value :: "string \<Rightarrow> nat" where
  "dec_value s = foldl (\<lambda>n c. 10 * n + (of_char c - 48)) 0 s"

definition is_index :: "string \<Rightarrow> bool" where
  "is_index s =
     (s \<noteq> [] \<and> list_all is_digit s \<and> (length s = 1 \<or> hd s \<noteq> CHR ''0'') \<and>
      dec_value s < 2 ^ 32 - 1)"

fun insert_index :: "(string \<times> 'v) list \<Rightarrow> string \<Rightarrow> 'v \<Rightarrow> (string \<times> 'v) list" where
  "insert_index [] key v = [(key, v)]"
| "insert_index ((k, w) # m) key v =
     (if is_index k \<and> dec_value k < dec_value key then (k, w) # insert_index m key v
      else (key, v) # (k, w) # m)"

definition obj_set :: "(string \<times> 'v) list \<Rightarrow> string \<Rightarrow> 'v \<Rightarrow> (string \<times> 'v) list" where
  "obj_set m key v =
     (if key \<in> set (map fst m) then map (\<lambda>(k, w). if k = key then (k, v) else (k, w)) m
      else if is_index key then insert_index m key v
      else m @ [(key, v)])"

text \<open>\<^verbatim>\<open>a || b\<close> on an optional string.\<close>

fun or_else :: "string option \<Rightarrow> string \<Rightarrow> string" where
  "or_else None b = b"
| "or_else (Some a) b = (if a \<noteq> [] then a else b)"

subsection \<open>Save\<close>

text \<open>
  What the world answers during one save: whether the client is configured, the signed-in user,
  the random sources, the clock, the local store and whether it accepts a write, and the reply
  of the remote upsert: an exception, an error with its code and message, or the selected row
  (\<^verbatim>\<open>id\<close>, \<^verbatim>\<open>short_id\<close>) if any.
\<close>

datatype UpsertReply =
    UpsertThrows "string option"
  | UpsertError string string
  | UpsertData "(string option \<times> string option) option"

record SaveEnv =
  supabase_configured :: bool
  auth_user :: "string option"
  crypto_value :: "128 word option"
  random :: random_source
  now :: string
  local_store :: LocalStore
  local_writable :: bool
  upsert_reply :: UpsertReply

text \<open>
  The three warnings shown with \<^verbatim>\<open>alert\<close>: "Permission denied ... (Report saved locally)",
  "Table 'inspections' does not exist ... Report saved locally." and "Schema mismatch (missing
  column) ... Report saved locally.".
\<close>

datatype Alert = WarnPermissionDenied | WarnTableMissing | WarnSchemaMismatch

record SaveResult =
  save_outcome :: "string + (string \<times> string)"
  save_alerts :: "Alert list"
  save_local :: LocalStore

text \<open>
  The keys assigned at the start of a save:
  \<^verbatim>\<open>inspection.savedReportId || generateUUID()\<close> and \<^verbatim>\<open>inspection.shortId || generateShortId()\<close>.
\<close>

definition assign_keys :: "SaveEnv \<Rightarrow> InspectionProfile \<Rightarrow> string \<times> string" where
  "assign_keys env inspection =
     (let (uuid, k) = (if truthy_str (savedReportId inspection)
                       then (or_else (savedReportId inspection) [], 0)
                       else generateUUID (crypto_value env) (random env) 0);
          short = (if truthy_str (shortId inspection)
                   then or_else (shortId inspection) []
                   else fst (generateShortId (random env) k))
      in (uuid, short))"

definition local_backup :: "SaveEnv \<Rightarrow> string \<Rightarrow> InspectionProfile \<Rightarrow> LocalStore" where
  "local_backup env uuid payload =
     (let record = \<lparr>rec_id = uuid, rec_data = Some payload, rec_report_data = None,
                     rec_created_at = now env\<rparr>;
          written = (\<lambda>m. if local_writable env then LsMap m else local_store env)
      in case local_store env of
           LsNull \<Rightarrow> written [(uuid, record)]
         | LsUnparsable \<Rightarrow> local_store env
         | LsMap m \<Rightarrow> written (obj_set m uuid record))"

definition saveReportToSupabase :: "SaveEnv \<Rightarrow> InspectionProfile \<Rightarrow> SaveResult" where
  "saveReportToSupabase env inspection =
     (let (uuid, short) = assign_keys env inspection;
          user = (if supabase_configured env
                  then (case auth_user env of Some u \<Rightarrow> Some u | None \<Rightarrow> userId inspection)
                  else userId inspection);
          payload = inspection\<lparr>savedReportId := Some uuid, shortId := Some short, userId := user\<rparr>;
          stored = local_backup env uuid payload
      in if \<not> supabase_configured env then
           \<lparr>save_outcome = Inr (uuid, short), save_alerts = [], save_local = stored\<rparr>
         else
           (case upsert_reply env of
              UpsertThrows msg \<Rightarrow>
                \<lparr>save_outcome = Inl (or_else msg ''Failed to save inspection to cloud.''),
                 save_alerts = [], save_local = stored\<rparr>
            | UpsertError code message \<Rightarrow>
                if code = ''42501'' then
                  \<lparr>save_outcome = Inr (uuid, short), save_alerts = [WarnPermissionDenied],
                   save_local = stored\<rparr>
                else if code = ''42P01'' then
                  \<lparr>save_outcome = Inr (uuid, short), save_alerts = [WarnTableMissing],
                   save_local = stored\<rparr>
                else if code = ''PGRST204'' then
                  \<lparr>save_outcome = Inr (uuid, short), save_alerts = [WarnSchemaMismatch],
                   save_local = stored\<rparr>
                else
                  \<lparr>save_outcome =
                     Inl (or_else (Some (''Supabase Error '' @ code @ '': '' @ message))
                                  ''Failed to save inspection to cloud.''),
                   save_alerts = [], save_local = stored\<rparr>
            | UpsertData data \<Rightarrow>
                \<lparr>save_outcome =
                   Inr (case data of
                          None \<Rightarrow> (uuid, short)
                        | Some (row_id, row_short) \<Rightarrow> (or_else row_id uuid, or_else row_short short)),
                 save_alerts = [], save_local = stored\<rparr>))"

text \<open>The failures the specification calls recoverable, and the others.\<close>

definition recoverable_code :: "string \<Rightarrow> bool" where
  "recoverable_code code = (code = ''42501'' \<or> code = ''42P01'' \<or> code = ''PGRST204'')"

subsection \<open>Load\<close>

datatype Column = ColId | ColShortId

record RemoteRow =
  row_data :: "InspectionProfile option"
  row_id :: string
  row_short_id :: "string option"
  row_user_id :: "string option"

text \<open>
  The reply to \<^verbatim>\<open>query.single()\<close>: an exception, or the pair of \<^verbatim>\<open>error\<close> (present or not) and
  \<^verbatim>\<open>data\<close> (a row or \<^verbatim>\<open>null\<close>).
\<close>

datatype QueryReply =
    QueryThrows
  | QueryResult bool "RemoteRow option"

record LoadEnv =
  load_configured :: bool
  remote_query :: "Column \<Rightarrow> string \<Rightarrow> QueryReply"
  load_local :: LocalStore

text \<open>
  A computation that may put one question to the remote table: it returns at once, or it asks
  for the row whose column holds a value and goes on with the reply. Running it against a
  remote gives its result and the questions that were put.
\<close>

datatype 'a Remote =
    Return 'a
  | Ask Column string "QueryReply \<Rightarrow> 'a"

fun run_remote ::
  "(Column \<Rightarrow> string \<Rightarrow> QueryReply) \<Rightarrow> 'a Remote \<Rightarrow> 'a \<times> (Column \<times> string) list"
where
  "run_remote remote (Return a) = (a, [])"
| "run_remote remote (Ask column v continue) = (continue (remote column v), [(column, v)])"

record LoadResult =
  loaded :: "InspectionProfile option"
  queried :: "(Column \<times> string) list"

text \<open>The body of the second \<^verbatim>\<open>try\<close> block: the local fallback, with what it throws.\<close>

definition local_fallback :: "bool \<Rightarrow> string \<Rightarrow> LocalStore \<Rightarrow> JsError + InspectionProfile option" where
  "local_fallback is_uuid idOrShortId store =
     (case store of
        LsNull \<Rightarrow> Inr None
      | LsUnparsable \<Rightarrow> Inl SyntaxError
      | LsMap m \<Rightarrow>
          (case (if is_uuid then map_of m idOrShortId else None) of
             Some record \<Rightarrow>
               (case (case rec_data record of Some p \<Rightarrow> Some p | None \<Rightarrow> rec_report_data record) of
                  None \<Rightarrow> Inl TypeError
                | Some stored \<Rightarrow> Inr (Some (stored\<lparr>savedReportId := Some idOrShortId\<rparr>)))
           | None \<Rightarrow>
               (if \<not> is_uuid then
                  (case find (\<lambda>record. case rec_data record of
                                          None \<Rightarrow> False
                                        | Some p \<Rightarrow> shortId p = Some idOrShortId)
                             (map snd m) of
                     Some found \<Rightarrow> Inr (rec_data found)
                   | None \<Rightarrow> Inr None)
                else Inr None)))"

text \<open>
  \<^verbatim>\<open>loadReportFromSupabase\<close>: with a configured client, the query \<^verbatim>\<open>.eq('id', idOrShortId)\<close> or
  \<^verbatim>\<open>.eq('short_id', idOrShortId)\<close> and what is done with its reply; the local fallback (whose
  exceptions are caught, giving \<^verbatim>\<open>null\<close>) in every case in which the remote gives no profile.
\<close>

definition load_steps :: "bool \<Rightarrow> LocalStore \<Rightarrow> string \<Rightarrow> InspectionProfile option Remote" where
  "load_steps configured store idOrShortId =
     (let is_uuid = isUuid idOrShortId;
          fallback = (case local_fallback is_uuid idOrShortId store of
                        Inl e \<Rightarrow> None
                      | Inr r \<Rightarrow> r)
      in if configured then
           Ask (if is_uuid then ColId else ColShortId) idOrShortId
             (\<lambda>reply.
                case reply of
                  QueryThrows \<Rightarrow> fallback
                | QueryResult error data \<Rightarrow>
                    (if error then fallback
                     else case data of
                            None \<Rightarrow> fallback
                          | Some row \<Rightarrow>
                              (case row_data row of
                                 None \<Rightarrow> fallback
                               | Some profile \<Rightarrow>
                                   Some (profile\<lparr>savedReportId := Some (row_id row),
                                                 shortId := row_short_id row,
                                                 userId := row_user_id row\<rparr>))))
         else Return fallback)"

definition loadReportFromSupabase :: "LoadEnv \<Rightarrow> string \<Rightarrow> LoadResult" where
  "loadReportFromSupabase env idOrShortId =
     (let (result, asked) =
            run_remote (remote_query env)
              (load_steps (load_configured env) (load_local env) idOrShortId)
      in \<lparr>loaded = result, queried = asked\<rparr>)"

text \<open>What it is for an identifier to exist in the remote backend, and in the local store.\<close>

definition usable_reply :: "QueryReply \<Rightarrow> bool" where
  "usable_reply reply =
     (case reply of
        QueryThrows \<Rightarrow> False
      | QueryResult error data \<Rightarrow>
          \<not> error \<and> (case data of None \<Rightarrow> False | Some row \<Rightarrow> row_data row \<noteq> None))"

definition in_remote :: "LoadEnv \<Rightarrow> string \<Rightarrow> bool" where
  "in_remote env ident =
     (load_configured env \<and>
      (usable_reply (remote_query env ColId ident) \<or> usable_reply (remote_query env ColShortId ident)))"

definition in_local :: "LocalStore \<Rightarrow> string \<Rightarrow> bool" where
  "in_local store ident =
     (case store of
        LsMap m \<Rightarrow>
          map_of m ident \<noteq> None \<or>
          (\<exists>record \<in> set (map snd m).
              case rec_data record of None \<Rightarrow> False | Some p \<Rightarrow> shortId p = Some ident)
      | _ \<Rightarrow> False)"


section \<open>Example documents and environments\<close>

text \<open>An item and a section as the generators build them, and a profile around sections.\<close>

definition new_item :: "string \<Rightarrow> ItemStatus \<Rightarrow> InspectionChecklistItem" where
  "new_item ident st =
     \<lparr>item_id = ident, label = ''Gutters'', item_status = st, item_notes = [], photos = [],
      options = None, selectedOption = None, isHidden = None\<rparr>"

definition new_section ::
  "string \<Rightarrow> InspectionChecklistItem list \<Rightarrow> SectionStatus \<Rightarrow> InspectionSection"
where
  "new_section ident its st =
     \<lparr>sec_id = ident, title = ''Roof'', iconName = ''sun'', description = ''Standard'',
      items = its, photoUrl = None, sec_status = st\<rparr>"

definition new_profile :: "InspectionSection list \<Rightarrow> InspectionProfile" where
  "new_profile secs =
     \<lparr>profile_id = ''1700000000000'', savedReportId = None, shortId = None, userId = None,
      address = ''1 Main St'', googleMapsUrl = None, propertyType = ''Ranch'', floors = 1,
      baths = 1, bedrooms = 3, sqft = None, yearBuilt = None, occupancy = None, pets = None,
      weather = None, temperatureOutside = None, temperatureInside = None, gasType = None,
      sewerType = None, waterType = None, electricPanel = None, generatorType = None,
      inspectorName = ''Guest Inspector'', createdAt = ''2024-01-01T00:00:00.000Z'',
      sections = secs\<rparr>"

text \<open>One section, its only item passed, the section completed.\<close>

definition doc_done :: InspectionProfile where
  "doc_done = new_profile [new_section ''s1'' [new_item ''i1'' Pass] Completed]"

text \<open>One generated section, its two items untouched.\<close>

definition doc_fresh :: InspectionProfile where
  "doc_fresh =
     new_profile [new_section ''s1'' [new_item ''i1'' Untouched, new_item ''i2'' Untouched] Pending]"

text \<open>A generated section for which the generation returned no items.\<close>

definition doc_empty_section :: InspectionProfile where
  "doc_empty_section = new_profile [new_section ''s1'' [] Pending]"



text \<open>Forty visible items in one section, the first twenty-three of them passed.\<close>

definition doc_forty :: InspectionProfile where
  "doc_forty =
     new_profile
       [new_section ''s1''
          (map (\<lambda>k. new_item (''item-0-'' @ nat_to_hex k) Pass) [0..<23] @
           map (\<lambda>k. new_item (''item-0-'' @ nat_to_hex k) Untouched) [23..<40])
          InProgress]"

text \<open>A random source that always draws one half, and environments around it.\<close>

definition halves :: random_source where
  "halves = (\<lambda>k. 1 / 2)"

definition env_denied :: SaveEnv where
  "env_denied =
     \<lparr>supabase_configured = True, auth_user = None, crypto_value = None, random = halves,
      now = ''2024-01-01T00:00:00.000Z'', local_store = LsNull, local_writable = True,
      upsert_reply = UpsertError ''42501'' ''permission denied''\<rparr>"

definition env_failed :: SaveEnv where
  "env_failed = env_denied\<lparr>upsert_reply := UpsertError ''23505'' ''duplicate key''\<rparr>"

text \<open>
  A remote that holds one report, under a primary key and a short key, and answers every
  other question with an error (no row); and a remote that holds nothing.
\<close>

definition stored_row :: RemoteRow where
  "stored_row =
     \<lparr>row_data = Some doc_fresh, row_id = ''123e4567-E89B-12d3-a456-426614174000'',
      row_short_id = Some ''aB3dE5fG7'', row_user_id = None\<rparr>"

definition env_stored :: LoadEnv where
  "env_stored =
     \<lparr>load_configured = True,
      remote_query = (\<lambda>column ident.
         if column = ColId \<and> ident = ''123e4567-E89B-12d3-a456-426614174000'' \<or>
            column = ColShortId \<and> ident = ''aB3dE5fG7''
         then QueryResult False (Some stored_row) else QueryResult True None),
      load_local = LsNull\<rparr>"

definition env_nothing :: LoadEnv where
  "env_nothing =
     \<lparr>load_configured = True, remote_query = (\<lambda>column ident. QueryResult True None),
      load_local = LsNull\<rparr>"


section \<open>Evaluating the example documents\<close>

lemma ex_simps:
  "sections (new_profile secs) = secs"
  "sec_id (new_section a its st) = a"
  "items (new_section a its st) = its"
  "sec_status (new_section a its st) = st"
  "item_id (new_item b ist) = b"
  "item_status (new_item b ist) = ist"
  "isHidden (new_item b ist) = None"
  by (simp_all add: new_profile_def new_section_def new_item_def)


section \<open>Mutations that name a missing section or item\<close>

lemma map_items_id:
  "\<forall>i \<in> set xs. item_id i \<noteq> iid \<Longrightarrow> map (\<lambda>item. if item_id item = iid then f item else item) xs = xs"
  by (induction xs) auto

lemma map_items_id':
  "\<forall>i \<in> set xs. item_id i \<noteq> iid \<Longrightarrow> map (\<lambda>item. if item_id item \<noteq> iid then item else f item) xs = xs"
  by (induction xs) auto

lemma map_secs_id:
  "\<forall>sec \<in> set ss. sec_id sec = sid \<longrightarrow> f sec = sec \<Longrightarrow>
   map (\<lambda>sec. if sec_id sec \<noteq> sid then sec else f sec) ss = ss"
  by (induction ss) auto

lemma no_item: "\<not> has_item d sid iid \<Longrightarrow> sec \<in> set (sections d) \<Longrightarrow> sec_id sec = sid \<Longrightarrow>
   \<forall>i \<in> set (items sec). item_id i \<noteq> iid"
  by (auto simp: has_item_def)

lemma opt_noop: "\<not> has_item d sid iid \<Longrightarrow> updateItemOption sid iid opt d = d"
  unfolding updateItemOption_def
  by (simp add: map_secs_id map_items_id no_item)

lemma note_noop: "\<not> has_item d sid iid \<Longrightarrow> updateItemNote sid iid txt d = d"
  unfolding updateItemNote_def
  by (simp add: map_secs_id map_items_id no_item)

lemma vis_noop: "\<not> has_item d sid iid \<Longrightarrow> toggleItemVisibility sid iid h d = d"
  unfolding toggleItemVisibility_def
  by (simp add: map_secs_id map_items_id no_item)

lemma del_noop: "\<not> has_item d sid iid \<Longrightarrow> deletePhoto sid iid k d = d"
  unfolding deletePhoto_def
  by (simp add: map_secs_id map_items_id' no_item)

lemma ai_noop: "\<not> has_item d sid iid \<Longrightarrow> applyImageAnalysis sid iid k d = d"
  unfolding applyImageAnalysis_def
  by (simp add: map_secs_id map_items_id no_item)

lemma status_missing_item:
  "\<not> has_item d sid iid \<Longrightarrow> updateItemStatus sid iid st d = rederive_status sid d"
  unfolding updateItemStatus_def rederive_status_def
  by (auto simp: Let_def map_items_id no_item intro!: arg_cong[where f="\<lambda>x. d\<lparr>sections := x\<rparr>"])

lemma sec_status_update_fix:
  "((sec :: InspectionSection)\<lparr>sec_status := v\<rparr> = sec) = (sec_status sec = v)"
  by (cases sec) auto

lemma rederive_fix:
  "rederive_status sid d = d \<longleftrightarrow>
   (\<forall>sec \<in> set (sections d). sec_id sec = sid \<longrightarrow> sec_status sec = section_status_of (items sec))"
proof -
  have "rederive_status sid d = d \<longleftrightarrow>
        map (\<lambda>sec. if sec_id sec = sid then sec\<lparr>sec_status := section_status_of (items sec)\<rparr> else sec)
            (sections d) = map (\<lambda>sec. sec) (sections d)"
    unfolding rederive_status_def
    by (cases d) auto
  also have "\<dots> \<longleftrightarrow> (\<forall>sec \<in> set (sections d). sec_id sec = sid \<longrightarrow>
                 sec\<lparr>sec_status := section_status_of (items sec)\<rparr> = sec)"
    unfolding map_eq_conv by auto
  also have "\<dots> \<longleftrightarrow> (\<forall>sec \<in> set (sections d). sec_id sec = sid \<longrightarrow>
                 sec_status sec = section_status_of (items sec))"
    by (simp add: sec_status_update_fix)
  finally show ?thesis .
qed

lemma rederive_no_section: "\<not> has_section d sid \<Longrightarrow> rederive_status sid d = d"
  by (simp add: rederive_fix has_section_def)

lemma no_section_no_item: "\<not> has_section d sid \<Longrightarrow> \<not> has_item d sid iid"
  by (auto simp: has_section_def has_item_def)


text \<open>
  Claim C6, as the code has it. When no section with the given identifier holds an item with
  the given identifier (so also when there is no such section), \<open>updateItemOption\<close>,
  \<open>updateItemNote\<close>, \<open>toggleItemVisibility\<close> and \<open>deletePhoto\<close> return the document unchanged.
  \<open>updateItemStatus\<close> returns it unchanged when the section is missing; when the section
  exists and only the item is missing, it leaves every item as it is and derives the status of
  the section anew, so that the document is unchanged exactly when the stored status of every
  such section already is the derived one. The mutators are total functions: none throws.
\<close>

theorem missing_ids_leave_document:
  assumes "\<not> has_item d sectionId itemId"
  shows "updateItemOption sectionId itemId opt d = d \<and>
         updateItemNote sectionId itemId txt d = d \<and>
         toggleItemVisibility sectionId itemId hidden d = d \<and>
         deletePhoto sectionId itemId photoIndex d = d \<and>
         updateItemStatus sectionId itemId st d = rederive_status sectionId d \<and>
         (\<not> has_section d sectionId \<longrightarrow> updateItemStatus sectionId itemId st d = d) \<and>
         ((updateItemStatus sectionId itemId st d = d) =
            (\<forall>sec \<in> set (sections d).
               sec_id sec = sectionId \<longrightarrow> sec_status sec = section_status_of (items sec)))"
  using assms
  by (simp add: opt_noop note_noop vis_noop del_noop status_missing_item rederive_fix
        rederive_no_section)

theorem missing_ids_leave_document_witness:
  "\<not> has_item doc_fresh ''s1'' ''i9'' \<and>
   updateItemOption ''s1'' ''i9'' ''Metal'' doc_fresh = doc_fresh \<and>
   updateItemStatus ''s1'' ''i9'' Pass doc_fresh = doc_fresh"
proof -
  have h: "\<not> has_item doc_fresh ''s1'' ''i9''"
    by (simp add: has_item_def doc_fresh_def ex_simps)
  have r: "\<forall>sec \<in> set (sections doc_fresh).
              sec_id sec = ''s1'' \<longrightarrow> sec_status sec = section_status_of (items sec)"
    by (simp add: doc_fresh_def ex_simps section_status_of_def)
  show ?thesis
    using h r missing_ids_leave_document[OF h, of "''Metal''" "[]" True 0 Pass]
    by blast
qed

text \<open>
  The claim as stated fails for \<open>updateItemStatus\<close>: on a section without items, stored as
  pending, a call that names the section and an item it does not have changes the document
  (the section becomes completed).
\<close>

theorem missing_item_status_counterexample:
  "\<not> has_item doc_empty_section ''s1'' ''i9'' \<and>
   updateItemStatus ''s1'' ''i9'' Pass doc_empty_section \<noteq> doc_empty_section"
  by (simp add: has_item_def doc_empty_section_def updateItemStatus_def section_status_of_def
        new_profile_def new_section_def)


section \<open>Hiding and showing an item\<close>

lemma list_all2_mapI: "(\<And>x. x \<in> set xs \<Longrightarrow> R x (f x)) \<Longrightarrow> list_all2 R xs (map f xs)"
  by (induction xs) auto

lemma items_restore: "(sec :: InspectionSection)\<lparr>items := v, items := items sec\<rparr> = sec"
  by (cases sec) auto

lemma map_if_fix:
  "\<forall>x \<in> set xs. P x \<longrightarrow> f x = x \<Longrightarrow> map (\<lambda>x. if P x then f x else x) xs = xs"
  by (induction xs) auto

lemma isHidden_update_fix:
  "((i :: InspectionChecklistItem)\<lparr>isHidden := v\<rparr> = i) = (isHidden i = v)"
  by (cases i) auto



lemma show_shown:
  "targets_shown d sid iid \<Longrightarrow> toggleItemVisibility sid iid False d = d"
  unfolding toggleItemVisibility_def targets_shown_def
  by (simp add: map_secs_id map_if_fix isHidden_update_fix)

lemma show_visible:
  "targets_visible d sid iid \<Longrightarrow>
   default_hidden (toggleItemVisibility sid iid False d) = default_hidden d"
  unfolding toggleItemVisibility_def targets_visible_def default_hidden_def
  by (auto simp: o_def intro!: arg_cong[where f="\<lambda>x. d\<lparr>sections := x\<rparr>"])


















section \<open>Photos and notes: what a mutation changes and what it leaves\<close>

text \<open>
  Claim C9. Position by position, the captured photo changes the sections and items as
  follows. With an item identifier (the identifiers that the generators assign, and so the
  camera target carries, are never the empty text): every section keeps all its fields but the
  item list (so its cover photo too), and in the item lists exactly the items with the given
  identifier in a section with the given identifier get the image appended to their photos,
  every other item staying as it is. With no item identifier: the sections with the given
  identifier get the image as their \<open>photoUrl\<close>, whatever it was, and nothing else changes, no
  item and no photo list.
\<close>

theorem capture_photo_frame:
  "(itemId \<noteq> [] \<longrightarrow>
      list_all2
        (\<lambda>sec sec'. sec'\<lparr>items := items sec\<rparr> = sec \<and>
           list_all2
             (\<lambda>i i'. i' = (if sec_id sec = sectionId \<and> item_id i = itemId
                            then i\<lparr>photos := photos i @ [imageData]\<rparr> else i))
             (items sec) (items sec'))
        (sections d)
        (sections (handleCapturePhoto
           \<lparr>target_sectionId = sectionId, target_itemId = Some itemId\<rparr> imageData d))) \<and>
   (\<not> truthy_str t \<longrightarrow>
      list_all2
        (\<lambda>sec sec'. sec' = (if sec_id sec = sectionId then sec\<lparr>photoUrl := Some imageData\<rparr> else sec))
        (sections d)
        (sections (handleCapturePhoto
           \<lparr>target_sectionId = sectionId, target_itemId = t\<rparr> imageData d)))"
  unfolding handleCapturePhoto_def
  by (auto intro!: list_all2_mapI simp: items_restore list.rel_refl)

theorem capture_photo_frame_witness:
  "''i1'' \<noteq> [] \<and> \<not> truthy_str None \<and>
   list_all2
     (\<lambda>sec sec'. sec'\<lparr>items := items sec\<rparr> = sec \<and>
        list_all2
          (\<lambda>i i'. i' = (if sec_id sec = ''s1'' \<and> item_id i = ''i1''
                         then i\<lparr>photos := photos i @ [''jpeg'']\<rparr> else i))
          (items sec) (items sec'))
     (sections doc_fresh)
     (sections (handleCapturePhoto
        \<lparr>target_sectionId = ''s1'', target_itemId = Some ''i1''\<rparr> ''jpeg'' doc_fresh)) \<and>
   list_all2
     (\<lambda>sec sec'. sec' = (if sec_id sec = ''s1'' then sec\<lparr>photoUrl := Some ''jpeg''\<rparr> else sec))
     (sections doc_fresh)
     (sections (handleCapturePhoto
        \<lparr>target_sectionId = ''s1'', target_itemId = None\<rparr> ''jpeg'' doc_fresh))"
  using capture_photo_frame[of "''i1''" "''s1''" "''jpeg''" doc_fresh None]
  by simp

lemma note_replaced:
  "list_all2
     (\<lambda>sec sec'. sec'\<lparr>items := items sec\<rparr> = sec \<and>
        list_all2
          (\<lambda>i i'. i' = (if sec_id sec = sid \<and> item_id i = iid then i\<lparr>item_notes := txt\<rparr> else i))
          (items sec) (items sec'))
     (sections d) (sections (updateItemNote sid iid txt d))"
  unfolding updateItemNote_def
  by (auto intro!: list_all2_mapI simp: items_restore list.rel_refl)

lemma note_appended:
  "list_all2
     (\<lambda>sec sec'. sec'\<lparr>items := items sec\<rparr> = sec \<and>
        list_all2
          (\<lambda>i i'. i' = (if sec_id sec = sid \<and> item_id i = iid
                         then i\<lparr>item_notes :=
                                 (if item_notes i = [] then txt
                                  else item_notes i @ [CHR 0x0A] @ ''AI Note: '' @ txt)\<rparr>
                         else i))
          (items sec) (items sec'))
     (sections d) (sections (applyImageAnalysis sid iid txt d))"
  unfolding applyImageAnalysis_def ai_note_def
  by (auto intro!: list_all2_mapI simp: items_restore list.rel_refl)

lemma found_process:
  "item_found d sid iid \<Longrightarrow>
   processImageAnalysis sid iid descr (Some d) (Some d) = Some (applyImageAnalysis sid iid descr d)"
  unfolding item_found_def processImageAnalysis_def on_state_def
  by (auto split: option.splits)

lemma found_process_any:
  "item_found d sid iid \<Longrightarrow>
   processImageAnalysis sid iid descr (Some d) prev = on_state (applyImageAnalysis sid iid descr) prev"
  unfolding item_found_def processImageAnalysis_def
  by (auto split: option.splits)

lemma not_found_process:
  "\<not> item_found d sid iid \<Longrightarrow> processImageAnalysis sid iid descr (Some d) prev = prev"
  unfolding item_found_def processImageAnalysis_def
  by (auto split: option.splits)

text \<open>
  Claim C5. Position by position: \<open>updateItemNote\<close> (the user's input) sets the notes of the
  items with the given identifiers to the given text, whatever they were; the patch of the image
  analysis sets them to the prior notes, a line feed, "AI Note: " and the text when the prior
  notes were non-empty, and to the text alone when they were empty. Both leave every other
  item and every other field as they are. \<open>processImageAnalysis\<close> applies the patch to the
  current state when its lookup in the rendered document finds the item, and leaves the state
  as it is otherwise.
\<close>

theorem two_note_write_modes:
  "list_all2
     (\<lambda>sec sec'. sec'\<lparr>items := items sec\<rparr> = sec \<and>
        list_all2
          (\<lambda>i i'. i' = (if sec_id sec = sectionId \<and> item_id i = itemId
                         then i\<lparr>item_notes := txt\<rparr> else i))
          (items sec) (items sec'))
     (sections d) (sections (updateItemNote sectionId itemId txt d)) \<and>
   list_all2
     (\<lambda>sec sec'. sec'\<lparr>items := items sec\<rparr> = sec \<and>
        list_all2
          (\<lambda>i i'. i' = (if sec_id sec = sectionId \<and> item_id i = itemId
                         then i\<lparr>item_notes :=
                                 (if item_notes i = [] then txt
                                  else item_notes i @ [CHR 0x0A] @ ''AI Note: '' @ txt)\<rparr>
                         else i))
          (items sec) (items sec'))
     (sections d) (sections (applyImageAnalysis sectionId itemId txt d)) \<and>
   (item_found d sectionId itemId \<longrightarrow>
      processImageAnalysis sectionId itemId txt (Some d) (Some d) =
        Some (applyImageAnalysis sectionId itemId txt d)) \<and>
   (item_found d sectionId itemId \<longrightarrow>
      processImageAnalysis sectionId itemId txt (Some d) prev =
        on_state (applyImageAnalysis sectionId itemId txt) prev) \<and>
   (\<not> item_found d sectionId itemId \<longrightarrow>
      processImageAnalysis sectionId itemId txt (Some d) prev = prev)"
proof (intro conjI impI)
  show "list_all2
     (\<lambda>sec sec'. sec'\<lparr>items := items sec\<rparr> = sec \<and>
        list_all2
          (\<lambda>i i'. i' = (if sec_id sec = sectionId \<and> item_id i = itemId
                         then i\<lparr>item_notes := txt\<rparr> else i))
          (items sec) (items sec'))
     (sections d) (sections (updateItemNote sectionId itemId txt d))"
    by (rule note_replaced)
  show "list_all2
     (\<lambda>sec sec'. sec'\<lparr>items := items sec\<rparr> = sec \<and>
        list_all2
          (\<lambda>i i'. i' = (if sec_id sec = sectionId \<and> item_id i = itemId
                         then i\<lparr>item_notes :=
                                 (if item_notes i = [] then txt
                                  else item_notes i @ [CHR 0x0A] @ ''AI Note: '' @ txt)\<rparr>
                         else i))
          (items sec) (items sec'))
     (sections d) (sections (applyImageAnalysis sectionId itemId txt d))"
    by (rule note_appended)
next
  assume "item_found d sectionId itemId"
  then show "processImageAnalysis sectionId itemId txt (Some d) (Some d) =
               Some (applyImageAnalysis sectionId itemId txt d)"
    by (rule found_process)
next
  assume "item_found d sectionId itemId"
  then show "processImageAnalysis sectionId itemId txt (Some d) prev =
               on_state (applyImageAnalysis sectionId itemId txt) prev"
    by (rule found_process_any)
next
  assume "\<not> item_found d sectionId itemId"
  then show "processImageAnalysis sectionId itemId txt (Some d) prev = prev"
    by (rule not_found_process)
qed

theorem two_note_write_modes_witness:
  "item_found doc_fresh ''s1'' ''i1'' \<and>
   processImageAnalysis ''s1'' ''i1'' ''Crack'' (Some doc_fresh) (Some doc_fresh) =
     Some (applyImageAnalysis ''s1'' ''i1'' ''Crack'' doc_fresh) \<and>
   map item_notes (concat (map items (sections
     (applyImageAnalysis ''s1'' ''i1'' ''Crack'' (updateItemNote ''s1'' ''i1'' ''Old'' doc_fresh))))) =
     [''Old'' @ [CHR 0x0A] @ ''AI Note: Crack'', []] \<and>
   map item_notes (concat (map items (sections
     (applyImageAnalysis ''s1'' ''i2'' ''Crack'' (updateItemNote ''s1'' ''i1'' ''Old'' doc_fresh))))) =
     [''Old'', ''Crack'']"
proof -
  have f: "item_found doc_fresh ''s1'' ''i1''"
    by (simp add: item_found_def doc_fresh_def ex_simps)
  have e1: "map item_notes (concat (map items (sections
     (applyImageAnalysis ''s1'' ''i1'' ''Crack'' (updateItemNote ''s1'' ''i1'' ''Old'' doc_fresh))))) =
     [''Old'' @ [CHR 0x0A] @ ''AI Note: Crack'', []]"
    by (simp add: applyImageAnalysis_def updateItemNote_def ai_note_def doc_fresh_def
          new_profile_def new_section_def new_item_def)
  have e2: "map item_notes (concat (map items (sections
     (applyImageAnalysis ''s1'' ''i2'' ''Crack'' (updateItemNote ''s1'' ''i1'' ''Old'' doc_fresh))))) =
     [''Old'', ''Crack'']"
    by (simp add: applyImageAnalysis_def updateItemNote_def ai_note_def doc_fresh_def
          new_profile_def new_section_def new_item_def)
  show ?thesis
    using f e1 e2 two_note_write_modes[of "''s1''" "''i1''" "''Crack''" doc_fresh None]
    by blast
qed


section \<open>The derived status of a section\<close>

lemma length_filter_all: "(length (filter P xs) = length xs) = (\<forall>x \<in> set xs. P x)"
proof (induction xs)
  case Nil
  then show ?case by simp
next
  case (Cons x xs)
  have le: "length (filter P xs) \<le> length xs" by simp
  show ?case
  proof (cases "P x")
    case True
    with Cons show ?thesis by simp
  next
    case False
    have "length (filter P xs) \<noteq> Suc (length xs)" using le by arith
    with False show ?thesis by simp
  qed
qed

lemma status_of_completed:
  "(section_status_of its = Completed) = (\<forall>i \<in> set its. item_status i \<noteq> Untouched)"
proof -
  let ?u = "length (filter (\<lambda>i. item_status i = Untouched) its)"
  have le: "?u \<le> length its" by simp
  have "(length its - ?u = length its) = (?u = 0 \<or> length its = 0)" using le by arith
  also have "\<dots> = (\<forall>i \<in> set its. item_status i \<noteq> Untouched)"
    by (auto simp: filter_empty_conv)
  finally show ?thesis
    by (simp add: section_status_of_def Let_def)
qed

lemma status_of_pending:
  "(section_status_of its = Pending) = (its \<noteq> [] \<and> (\<forall>i \<in> set its. item_status i = Untouched))"
proof -
  let ?u = "length (filter (\<lambda>i. item_status i = Untouched) its)"
  have le: "?u \<le> length its" by simp
  have "(section_status_of its = Pending) = (length its - ?u \<noteq> length its \<and> \<not> 0 < length its - ?u)"
    by (simp add: section_status_of_def Let_def)
  also have "\<dots> = (its \<noteq> [] \<and> ?u = length its)"
  proof (cases "its = []")
    case True
    then show ?thesis by simp
  next
    case False
    then have "0 < length its" by simp
    then show ?thesis using le False by arith
  qed
  also have "\<dots> = (its \<noteq> [] \<and> (\<forall>i \<in> set its. item_status i = Untouched))"
    by (simp add: length_filter_all)
  finally show ?thesis .
qed

lemma status_rule_derived:
  "items sec \<noteq> [] \<Longrightarrow> status_rule sec = (sec_status sec = section_status_of (items sec))"
proof -
  assume ne: "items sec \<noteq> []"
  have c: "(section_status_of (items sec) = Completed) = (\<forall>i \<in> set (items sec). item_status i \<noteq> Untouched)"
    by (rule status_of_completed)
  have p: "(section_status_of (items sec) = Pending) = (\<forall>i \<in> set (items sec). item_status i = Untouched)"
    using ne by (simp add: status_of_pending)
  show ?thesis
    unfolding status_rule_def c[symmetric] p[symmetric]
    by (cases "sec_status sec"; cases "section_status_of (items sec)"; simp)
qed


lemma ruled_map:
  assumes "nonempty_sections_ruled d"
    and "\<And>sec. sec \<in> set (sections d) \<Longrightarrow> items sec \<noteq> [] \<longrightarrow> status_rule sec \<Longrightarrow>
           items (g sec) \<noteq> [] \<longrightarrow> status_rule (g sec)"
  shows "nonempty_sections_ruled (d\<lparr>sections := map g (sections d)\<rparr>)"
  using assms unfolding nonempty_sections_ruled_def by auto

lemma rule_items_map:
  assumes "\<And>i. item_status (h i) = item_status i"
  shows "status_rule (sec\<lparr>items := map h (items sec)\<rparr>) = status_rule sec"
  unfolding status_rule_def using assms by simp

lemma rule_photoUrl: "status_rule (sec\<lparr>photoUrl := u\<rparr>) = status_rule sec"
  unfolding status_rule_def by simp

lemma rule_rederived:
  "its \<noteq> [] \<Longrightarrow> status_rule (sec\<lparr>items := its, sec_status := section_status_of its\<rparr>)"
  by (simp add: status_rule_derived)

lemma fresh_ruled: "fresh_section sec \<Longrightarrow> items sec \<noteq> [] \<Longrightarrow> status_rule sec"
  unfolding fresh_section_def status_rule_def
  by (cases "items sec") auto

lemma status_keeps: "nonempty_sections_ruled d \<Longrightarrow> nonempty_sections_ruled (updateItemStatus sid iid st d)"
  unfolding updateItemStatus_def
  by (rule ruled_map) (auto simp: Let_def rule_rederived)

lemma option_keeps: "nonempty_sections_ruled d \<Longrightarrow> nonempty_sections_ruled (updateItemOption sid iid opt d)"
  unfolding updateItemOption_def
  by (rule ruled_map) (auto simp: rule_items_map)

lemma note_keeps: "nonempty_sections_ruled d \<Longrightarrow> nonempty_sections_ruled (updateItemNote sid iid txt d)"
  unfolding updateItemNote_def
  by (rule ruled_map) (auto simp: rule_items_map)

lemma ai_keeps: "nonempty_sections_ruled d \<Longrightarrow> nonempty_sections_ruled (applyImageAnalysis sid iid txt d)"
  unfolding applyImageAnalysis_def
  by (rule ruled_map) (auto simp: rule_items_map)

lemma visibility_keeps: "nonempty_sections_ruled d \<Longrightarrow> nonempty_sections_ruled (toggleItemVisibility sid iid h d)"
  unfolding toggleItemVisibility_def
  by (rule ruled_map) (auto simp: rule_items_map)

lemma show_keeps: "nonempty_sections_ruled d \<Longrightarrow> nonempty_sections_ruled (showHiddenItems sid d)"
  unfolding showHiddenItems_def
  by (rule ruled_map) (auto simp: rule_items_map)

lemma capture_keeps: "nonempty_sections_ruled d \<Longrightarrow> nonempty_sections_ruled (handleCapturePhoto t img d)"
  unfolding handleCapturePhoto_def
  by (rule ruled_map) (auto simp: rule_items_map rule_photoUrl)

lemma delete_keeps: "nonempty_sections_ruled d \<Longrightarrow> nonempty_sections_ruled (deletePhoto sid iid k d)"
  unfolding deletePhoto_def
  by (rule ruled_map) (auto simp: rule_items_map)

lemma section_keeps:
  "nonempty_sections_ruled d \<Longrightarrow> fresh_section sec \<Longrightarrow> nonempty_sections_ruled (handleAddSection sec d)"
  unfolding handleAddSection_def nonempty_sections_ruled_def
  by (auto simp: fresh_ruled)

lemma mutation_keeps:
  "keeps_rule m \<Longrightarrow> nonempty_sections_ruled d \<Longrightarrow> nonempty_sections_ruled (apply_mutation m d)"
  by (cases m)
     (simp_all add: status_keeps option_keeps note_keeps ai_keeps visibility_keeps show_keeps
        capture_keeps delete_keeps section_keeps)

lemma run_keeps:
  "\<forall>m \<in> set ms. keeps_rule m \<Longrightarrow> nonempty_sections_ruled d \<Longrightarrow>
   nonempty_sections_ruled (run_mutations ms d)"
proof (induction ms arbitrary: d)
  case Nil
  then show ?case by (simp add: run_mutations_def)
next
  case (Cons m ms)
  from Cons.prems have step: "nonempty_sections_ruled (apply_mutation m d)"
    by (intro mutation_keeps) simp_all
  from Cons.prems have rest: "\<forall>m \<in> set ms. keeps_rule m" by simp
  have "run_mutations (m # ms) d = run_mutations ms (apply_mutation m d)"
    by (simp add: run_mutations_def)
  with Cons.IH[OF rest step] show ?case by simp
qed

lemma fresh_document_ruled:
  "\<forall>sec \<in> set (sections d). fresh_section sec \<Longrightarrow> nonempty_sections_ruled d"
  unfolding nonempty_sections_ruled_def by (auto simp: fresh_ruled)

lemma status_call_derives:
  "sec \<in> set (sections (updateItemStatus sid iid st d)) \<Longrightarrow> sec_id sec = sid \<Longrightarrow>
   sec_status sec = section_status_of (items sec)"
proof -
  assume mem: "sec \<in> set (sections (updateItemStatus sid iid st d))" and ident: "sec_id sec = sid"
  let ?upd = "\<lambda>its. map (\<lambda>item. if item_id item = iid then item\<lparr>item_status := st\<rparr> else item) its"
  from mem obtain s where s: "s \<in> set (sections d)"
    and sec: "sec = (if sec_id s \<noteq> sid then s
                     else s\<lparr>items := ?upd (items s), sec_status := section_status_of (?upd (items s))\<rparr>)"
    unfolding updateItemStatus_def by (auto simp: Let_def)
  show ?thesis
  proof (cases "sec_id s \<noteq> sid")
    case True
    with sec ident show ?thesis by simp
  next
    case False
    with sec show ?thesis by simp
  qed
qed


text \<open>
  Claim C1, as the code has it. The rule of the data model (completed iff every item, hidden or
  not, is not untouched; pending iff every item is untouched; in-progress otherwise) holds for
  every section that has at least one item in every generated document, and it is kept by
  every sequence of mutations that does not append items to a section: by \<open>updateItemStatus\<close>,
  which derives the status anew, and by the mutations that change neither a stored status nor
  the status of an item (options, notes, visibility, photos, an appended generated section).
  After a call of \<open>updateItemStatus\<close> the rule holds in each section the call names that has
  an item, whatever the document was before; a section without items that the call names is
  completed.
\<close>

theorem derived_status_invariant:
  "((\<forall>sec \<in> set (sections d). fresh_section sec) \<longrightarrow> nonempty_sections_ruled d) \<and>
   (nonempty_sections_ruled d \<and> (\<forall>m \<in> set ms. keeps_rule m) \<longrightarrow>
      nonempty_sections_ruled (run_mutations ms d)) \<and>
   (\<forall>sec \<in> set (sections (updateItemStatus sectionId itemId st d)).
      sec_id sec = sectionId \<longrightarrow>
        (items sec \<noteq> [] \<longrightarrow> status_rule sec) \<and> (items sec = [] \<longrightarrow> sec_status sec = Completed))"
proof (intro conjI impI ballI)
  assume "\<forall>sec \<in> set (sections d). fresh_section sec"
  then show "nonempty_sections_ruled d" by (rule fresh_document_ruled)
next
  assume "nonempty_sections_ruled d \<and> (\<forall>m \<in> set ms. keeps_rule m)"
  then show "nonempty_sections_ruled (run_mutations ms d)" by (simp add: run_keeps)
next
  fix sec
  assume "sec \<in> set (sections (updateItemStatus sectionId itemId st d))" "sec_id sec = sectionId"
  then have der: "sec_status sec = section_status_of (items sec)" by (rule status_call_derives)
  { assume "items sec \<noteq> []"
    then show "status_rule sec" using der by (simp add: status_rule_derived) }
  { assume "items sec = []"
    then show "sec_status sec = Completed" using der by (simp add: section_status_of_def) }
qed

theorem derived_status_invariant_witness:
  "list_all fresh_section (sections doc_fresh) \<and>
   nonempty_sections_ruled doc_fresh \<and>
   list_all keeps_rule
     [SetItemStatus ''s1'' ''i1'' Pass, SetItemVisibility ''s1'' ''i1'' True,
      AddPhoto \<lparr>target_sectionId = ''s1'', target_itemId = Some ''i2''\<rparr> ''jpeg'',
      SetItemStatus ''s1'' ''i2'' Attention] \<and>
   nonempty_sections_ruled
     (run_mutations [SetItemStatus ''s1'' ''i1'' Pass, SetItemVisibility ''s1'' ''i1'' True,
                     AddPhoto \<lparr>target_sectionId = ''s1'', target_itemId = Some ''i2''\<rparr> ''jpeg'',
                     SetItemStatus ''s1'' ''i2'' Attention] doc_fresh) \<and>
   map sec_status (sections (updateItemStatus ''s1'' ''i1'' Pass doc_fresh)) = [InProgress] \<and>
   map sec_status
     (sections (run_mutations [SetItemStatus ''s1'' ''i1'' Pass, SetItemVisibility ''s1'' ''i1'' True,
                     AddPhoto \<lparr>target_sectionId = ''s1'', target_itemId = Some ''i2''\<rparr> ''jpeg'',
                     SetItemStatus ''s1'' ''i2'' Attention] doc_fresh)) = [Completed]"
proof -
  let ?ms = "[SetItemStatus ''s1'' ''i1'' Pass, SetItemVisibility ''s1'' ''i1'' True,
              AddPhoto \<lparr>target_sectionId = ''s1'', target_itemId = Some ''i2''\<rparr> ''jpeg'',
              SetItemStatus ''s1'' ''i2'' Attention]"
  have f: "\<forall>sec \<in> set (sections doc_fresh). fresh_section sec"
    by (simp add: doc_fresh_def ex_simps fresh_section_def)
  have k: "\<forall>m \<in> set ?ms. keeps_rule m"
    by simp
  have e: "map sec_status (sections (updateItemStatus ''s1'' ''i1'' Pass doc_fresh)) = [InProgress]"
    by (simp add: updateItemStatus_def doc_fresh_def ex_simps section_status_of_def)
  have r: "map sec_status (sections (run_mutations ?ms doc_fresh)) = [Completed]"
    by (simp add: run_mutations_def updateItemStatus_def toggleItemVisibility_def
          handleCapturePhoto_def doc_fresh_def new_profile_def new_section_def new_item_def
          section_status_of_def)
  have "nonempty_sections_ruled doc_fresh \<and> nonempty_sections_ruled (run_mutations ?ms doc_fresh)"
    using f k derived_status_invariant[of doc_fresh ?ms] by blast
  then show ?thesis
    using f k e r by (simp add: list_all_iff)
qed

text \<open>
  The claim as stated fails in two ways. Appending an untouched item to a completed section
  leaves the stored status completed (\<open>handleAddItem\<close> does not derive it anew). And for a
  section without items the rule asks for completed and pending at once: a generated section
  without items is stored as pending.
\<close>

theorem derived_status_counterexample:
  "all_sections_ruled doc_done \<and>
   \<not> all_sections_ruled (run_mutations [AppendItems ''s1'' [new_item ''i2'' Untouched]] doc_done) \<and>
   fresh_section (new_section ''s2'' [] Pending) \<and>
   \<not> all_sections_ruled (run_mutations [AppendSection (new_section ''s2'' [] Pending)] doc_done)"
  by (simp add: all_sections_ruled_def status_rule_def run_mutations_def handleAddItem_def
        handleAddSection_def fresh_section_def doc_done_def ex_simps)



section \<open>The identifier test and the column that load queries\<close>

lemma take_hex_iff:
  "(take_hex n s = Some r) = (n \<le> length s \<and> hex_group (take n s) \<and> r = drop n s)"
proof (induction n s rule: take_hex.induct)
  case (1 s)
  then show ?case by (auto simp: hex_group_def)
next
  case (2 n)
  then show ?case by simp
next
  case (3 n c s)
  then show ?case by (auto simp: hex_group_def)
qed

lemma take_hex_drop:
  "k \<le> length s \<Longrightarrow>
   (take_hex n (drop k s) = Some r) =
   (k + n \<le> length s \<and> hex_group (take n (drop k s)) \<and> r = drop (k + n) s)"
  by (auto simp: take_hex_iff add.commute)

lemma take_dash_drop:
  "(take_dash (drop k s) = Some r) = (k < length s \<and> s ! k = CHR ''-'' \<and> r = drop (Suc k) s)"
proof (cases "k < length s")
  case True
  then have "drop k s = s ! k # drop (Suc k) s" by (simp add: Cons_nth_drop_Suc)
  then show ?thesis using True by auto
next
  case False
  then show ?thesis by simp
qed

lemma isUuid_chain:
  "isUuid s =
     (\<exists>s1 s2 s3 s4 s5 s6 s7 s8.
        take_hex 8 s = Some s1 \<and> take_dash s1 = Some s2 \<and>
        take_hex 4 s2 = Some s3 \<and> take_dash s3 = Some s4 \<and>
        take_hex 4 s4 = Some s5 \<and> take_dash s5 = Some s6 \<and>
        take_hex 4 s6 = Some s7 \<and> take_dash s7 = Some s8 \<and>
        take_hex 12 s8 = Some [])"
  unfolding isUuid_def by (auto split: option.splits)

lemma isUuid_shape: "isUuid s = uuid_shape s"
proof
  assume "isUuid s"
  then obtain s1 s2 s3 s4 s5 s6 s7 s8 where
    a1: "take_hex 8 s = Some s1" and a2: "take_dash s1 = Some s2" and
    a3: "take_hex 4 s2 = Some s3" and a4: "take_dash s3 = Some s4" and
    a5: "take_hex 4 s4 = Some s5" and a6: "take_dash s5 = Some s6" and
    a7: "take_hex 4 s6 = Some s7" and a8: "take_dash s7 = Some s8" and
    a9: "take_hex 12 s8 = Some []"
    unfolding isUuid_chain by blast
  from a1 have b1: "8 \<le> length s" "hex_group (take 8 s)" "s1 = drop 8 s"
    by (simp_all add: take_hex_iff)
  from a2 b1 have b2: "8 < length s" "s ! 8 = CHR ''-''" "s2 = drop 9 s"
    by (simp_all add: take_dash_drop)
  from a3 b2 have b3: "13 \<le> length s" "hex_group (take 4 (drop 9 s))" "s3 = drop 13 s"
    by (simp_all add: take_hex_drop)
  from a4 b3 have b4: "13 < length s" "s ! 13 = CHR ''-''" "s4 = drop 14 s"
    by (simp_all add: take_dash_drop)
  from a5 b4 have b5: "18 \<le> length s" "hex_group (take 4 (drop 14 s))" "s5 = drop 18 s"
    by (simp_all add: take_hex_drop)
  from a6 b5 have b6: "18 < length s" "s ! 18 = CHR ''-''" "s6 = drop 19 s"
    by (simp_all add: take_dash_drop)
  from a7 b6 have b7: "23 \<le> length s" "hex_group (take 4 (drop 19 s))" "s7 = drop 23 s"
    by (simp_all add: take_hex_drop)
  from a8 b7 have b8: "23 < length s" "s ! 23 = CHR ''-''" "s8 = drop 24 s"
    by (simp_all add: take_dash_drop)
  from a9 b8 have b9: "36 \<le> length s" "hex_group (take 12 (drop 24 s))" "drop 36 s = []"
    by (simp_all add: take_hex_drop)
  from b9 have len: "length s = 36" by simp
  then have "take 12 (drop 24 s) = drop 24 s" by simp
  with b9 have "hex_group (drop 24 s)" by simp
  with len b1 b2 b3 b4 b5 b6 b7 b8 show "uuid_shape s"
    unfolding uuid_shape_def by simp
next
  assume "uuid_shape s"
  then have len: "length s = 36"
    and g: "hex_group (take 8 s)" "hex_group (take 4 (drop 9 s))" "hex_group (take 4 (drop 14 s))"
           "hex_group (take 4 (drop 19 s))" "hex_group (drop 24 s)"
    and d: "s ! 8 = CHR ''-''" "s ! 13 = CHR ''-''" "s ! 18 = CHR ''-''" "s ! 23 = CHR ''-''"
    unfolding uuid_shape_def by simp_all
  from len have l: "take 12 (drop 24 s) = drop 24 s" by simp
  have a1: "take_hex 8 s = Some (drop 8 s)" using len g by (simp add: take_hex_iff)
  have a2: "take_dash (drop 8 s) = Some (drop 9 s)" using len d by (simp add: take_dash_drop)
  have a3: "take_hex 4 (drop 9 s) = Some (drop 13 s)" using len g by (simp add: take_hex_drop)
  have a4: "take_dash (drop 13 s) = Some (drop 14 s)" using len d by (simp add: take_dash_drop)
  have a5: "take_hex 4 (drop 14 s) = Some (drop 18 s)" using len g by (simp add: take_hex_drop)
  have a6: "take_dash (drop 18 s) = Some (drop 19 s)" using len d by (simp add: take_dash_drop)
  have a7: "take_hex 4 (drop 19 s) = Some (drop 23 s)" using len g by (simp add: take_hex_drop)
  have a8: "take_dash (drop 23 s) = Some (drop 24 s)" using len d by (simp add: take_dash_drop)
  have a9: "take_hex 12 (drop 24 s) = Some []" using len g l by (simp add: take_hex_drop)
  show "isUuid s"
    unfolding isUuid_chain using a1 a2 a3 a4 a5 a6 a7 a8 a9 by blast
qed


lemma load_run:
  "loadReportFromSupabase env s =
     \<lparr>loaded = fst (run_remote (remote_query env)
                       (load_steps (load_configured env) (load_local env) s)),
      queried = snd (run_remote (remote_query env)
                       (load_steps (load_configured env) (load_local env) s))\<rparr>"
  by (simp add: loadReportFromSupabase_def split_beta)

lemma load_steps_asks:
  "\<exists>continue. load_steps True store s = Ask (if isUuid s then ColId else ColShortId) s continue"
  by (simp add: load_steps_def Let_def)

lemma load_steps_returns: "\<exists>result. load_steps False store s = Return result"
  by (simp add: load_steps_def Let_def)

lemma load_asks:
  "queried (loadReportFromSupabase env s) =
     (if load_configured env then [(if isUuid s then ColId else ColShortId, s)] else [])"
  by (simp add: load_run load_steps_def Let_def)

lemma load_reply_only:
  assumes "load_configured env' = load_configured env" "load_local env' = load_local env"
    and "remote_query env' (if isUuid s then ColId else ColShortId) s =
         remote_query env (if isUuid s then ColId else ColShortId) s"
  shows "loadReportFromSupabase env' s = loadReportFromSupabase env s"
proof (cases "load_configured env")
  case True
  with assms show ?thesis
    by (cases "isUuid s") (simp_all add: load_run load_steps_def Let_def)
next
  case False
  with assms show ?thesis
    by (simp add: load_run load_steps_def Let_def)
qed

lemma load_row_found:
  assumes "load_configured env"
    and "remote_query env (if isUuid s then ColId else ColShortId) s = QueryResult False (Some row)"
    and "row_data row = Some profile"
  shows "loaded (loadReportFromSupabase env s) =
           Some (profile\<lparr>savedReportId := Some (row_id row), shortId := row_short_id row,
                         userId := row_user_id row\<rparr>)"
  using assms by (cases "isUuid s") (simp_all add: load_run load_steps_def Let_def)

text \<open>
  Claim C4. With a configured client a load puts exactly one question to the remote: it asks
  for the identifier it was given, in the primary-key column when the identifier has the shape
  of the specification (36 characters, hexadecimal digits of either case in groups of 8, 4, 4,
  4 and 12 with hyphens between) and in the short-key column otherwise; with no client
  configured it puts none. The routine has no other input that could choose the column, and
  its result depends on the remote through the reply to that one question alone: two
  remotes that answer it alike give the same load, whatever they hold in the other column,
  and a row with a profile in that reply is what the load returns, under the row's keys.
\<close>

theorem load_column_by_pattern:
  "(\<exists>continue. load_steps True store s =
       Ask (if uuid_shape s then ColId else ColShortId) s continue) \<and>
   (\<exists>result. load_steps False store s = Return result) \<and>
   queried (loadReportFromSupabase env s) =
     (if load_configured env then [(if uuid_shape s then ColId else ColShortId, s)] else []) \<and>
   (load_configured env' = load_configured env \<and> load_local env' = load_local env \<and>
    remote_query env' (if uuid_shape s then ColId else ColShortId) s =
      remote_query env (if uuid_shape s then ColId else ColShortId) s \<longrightarrow>
    loadReportFromSupabase env' s = loadReportFromSupabase env s) \<and>
   (load_configured env \<and>
    remote_query env (if uuid_shape s then ColId else ColShortId) s =
      QueryResult False (Some row) \<and>
    row_data row = Some profile \<longrightarrow>
    loaded (loadReportFromSupabase env s) =
      Some (profile\<lparr>savedReportId := Some (row_id row), shortId := row_short_id row,
                    userId := row_user_id row\<rparr>))"
proof (intro conjI impI)
  show "\<exists>continue. load_steps True store s =
          Ask (if uuid_shape s then ColId else ColShortId) s continue"
    using load_steps_asks[of store s] by (simp only: isUuid_shape)
  show "\<exists>result. load_steps False store s = Return result"
    by (rule load_steps_returns)
  show "queried (loadReportFromSupabase env s) =
          (if load_configured env then [(if uuid_shape s then ColId else ColShortId, s)] else [])"
    using load_asks[of env s] by (simp only: isUuid_shape)
next
  assume "load_configured env' = load_configured env \<and> load_local env' = load_local env \<and>
    remote_query env' (if uuid_shape s then ColId else ColShortId) s =
      remote_query env (if uuid_shape s then ColId else ColShortId) s"
  then show "loadReportFromSupabase env' s = loadReportFromSupabase env s"
    using load_reply_only[of env' env s] by (simp only: isUuid_shape)
next
  assume "load_configured env \<and>
    remote_query env (if uuid_shape s then ColId else ColShortId) s =
      QueryResult False (Some row) \<and>
    row_data row = Some profile"
  then show "loaded (loadReportFromSupabase env s) =
      Some (profile\<lparr>savedReportId := Some (row_id row), shortId := row_short_id row,
                    userId := row_user_id row\<rparr>)"
    using load_row_found[of env s row profile] by (simp only: isUuid_shape)
qed

lemma stored_shapes:
  "uuid_shape ''123e4567-E89B-12d3-a456-426614174000'' \<and> \<not> uuid_shape ''aB3dE5fG7''"
  by (simp add: uuid_shape_def hex_group_def is_hex_def)

theorem load_column_by_pattern_witness:
  "load_configured env_stored \<and>
   remote_query env_stored ColId ''123e4567-E89B-12d3-a456-426614174000'' =
     QueryResult False (Some stored_row) \<and>
   remote_query env_stored ColShortId ''123e4567-E89B-12d3-a456-426614174000'' =
     QueryResult True None \<and>
   remote_query env_stored ColShortId ''aB3dE5fG7'' = QueryResult False (Some stored_row) \<and>
   remote_query env_stored ColId ''aB3dE5fG7'' = QueryResult True None \<and>
   row_data stored_row = Some doc_fresh \<and>
   queried (loadReportFromSupabase env_stored ''123e4567-E89B-12d3-a456-426614174000'') =
     [(ColId, ''123e4567-E89B-12d3-a456-426614174000'')] \<and>
   loaded (loadReportFromSupabase env_stored ''123e4567-E89B-12d3-a456-426614174000'') =
     Some (doc_fresh\<lparr>savedReportId := Some ''123e4567-E89B-12d3-a456-426614174000'',
                     shortId := Some ''aB3dE5fG7'', userId := None\<rparr>) \<and>
   queried (loadReportFromSupabase env_stored ''aB3dE5fG7'') = [(ColShortId, ''aB3dE5fG7'')] \<and>
   loaded (loadReportFromSupabase env_stored ''aB3dE5fG7'') =
     Some (doc_fresh\<lparr>savedReportId := Some ''123e4567-E89B-12d3-a456-426614174000'',
                     shortId := Some ''aB3dE5fG7'', userId := None\<rparr>)"
proof -
  have c: "load_configured env_stored" by (simp add: env_stored_def)
  have q1: "remote_query env_stored ColId ''123e4567-E89B-12d3-a456-426614174000'' =
              QueryResult False (Some stored_row)"
    and q2: "remote_query env_stored ColShortId ''123e4567-E89B-12d3-a456-426614174000'' =
              QueryResult True None"
    and q3: "remote_query env_stored ColShortId ''aB3dE5fG7'' = QueryResult False (Some stored_row)"
    and q4: "remote_query env_stored ColId ''aB3dE5fG7'' = QueryResult True None"
    by (simp_all add: env_stored_def)
  have r: "row_data stored_row = Some doc_fresh"
    and k: "row_id stored_row = ''123e4567-E89B-12d3-a456-426614174000''"
      "row_short_id stored_row = Some ''aB3dE5fG7''" "row_user_id stored_row = None"
    by (simp_all add: stored_row_def)
  note long = load_column_by_pattern[of LsNull "''123e4567-E89B-12d3-a456-426614174000''"
      env_stored env_stored stored_row doc_fresh]
  note short = load_column_by_pattern[of LsNull "''aB3dE5fG7''"
      env_stored env_stored stored_row doc_fresh]
  show ?thesis
    using c q1 q2 q3 q4 r k stored_shapes long short by simp
qed

section \<open>Generated keys\<close>

lemma hex_digit_is_hex: "is_hex (hex_digit v)"
proof -
  have "list_all is_hex ''0123456789abcdef''" by (simp add: is_hex_def)
  moreover have "v mod 16 < length ''0123456789abcdef''" by simp
  ultimately show ?thesis
    unfolding hex_digit_def list_all_length by blast
qed

lemma to_int32_draw:
  assumes "0 \<le> u" "u < 1"
  shows "0 \<le> to_int32 (u * 16) \<and> to_int32 (u * 16) < 16"
proof -
  have nn: "0 \<le> u * 16" using assms by simp
  have lt: "u * 16 < 16" using assms by simp
  have f0: "0 \<le> \<lfloor>u * 16\<rfloor>" using nn by simp
  have f1: "\<lfloor>u * 16\<rfloor> < 16" using lt by (simp add: floor_less_iff)
  have m: "\<lfloor>u * 16\<rfloor> mod 2 ^ 32 = \<lfloor>u * 16\<rfloor>" using f0 f1 by simp
  show ?thesis
    unfolding to_int32_def Let_def using nn f0 f1 m by simp
qed

lemma to_hex_digit: "0 \<le> v \<Longrightarrow> v < 16 \<Longrightarrow> to_hex v = [hex_digit (nat v)]"
  by (simp add: to_hex_def)

lemma variant_bits:
  assumes "0 \<le> (r::int)" "r < 16"
  shows "0 \<le> (r AND 3) OR 8 \<and> (r AND 3) OR 8 < 16"
proof -
  have a0: "0 \<le> r AND 3" by simp
  have a1: "r AND 3 \<le> 3" by (rule AND_upper2) simp
  have "(r AND 3) OR 8 < 2 ^ 4"
    by (rule OR_upper) (use a0 a1 in simp_all)
  moreover have "0 \<le> (r AND 3) OR 8" using a0 by simp
  ultimately show ?thesis by simp
qed


lemma replace_xy_filled:
  assumes "\<forall>k. 0 \<le> rnd k \<and> rnd k < 1"
  shows "list_all2 filled template (fst (replace_xy template rnd k))"
proof (induction template arbitrary: k)
  case Nil
  then show ?case by simp
next
  case (Cons c cs)
  let ?r = "to_int32 (rnd k * 16)"
  have r: "0 \<le> ?r \<and> ?r < 16" using assms by (simp add: to_int32_draw)
  show ?case
  proof (cases "c = CHR ''x'' \<or> c = CHR ''y''")
    case True
    let ?v = "if c = CHR ''x'' then ?r else (?r AND 3) OR 8"
    have v: "0 \<le> ?v \<and> ?v < 16" using r variant_bits[of ?r] by simp
    then have "to_hex ?v = [hex_digit (nat ?v)]" by (simp add: to_hex_digit)
    then have "fst (replace_xy (c # cs) rnd k) =
               hex_digit (nat ?v) # fst (replace_xy cs rnd (Suc k))"
      using True by (simp add: Let_def split_beta)
    then show ?thesis
      using True Cons.IH[of "Suc k"] by (simp add: filled_def hex_digit_is_hex)
  next
    case False
    then have "fst (replace_xy (c # cs) rnd k) = c # fst (replace_xy cs rnd k)"
      by (simp add: split_beta)
    then show ?thesis
      using False Cons.IH[of k] by (simp add: filled_def)
  qed
qed

lemma filled_hexy: "filled c c' \<Longrightarrow> hexy c \<Longrightarrow> is_hex c'"
  unfolding filled_def hexy_def by (cases "c = CHR ''x'' \<or> c = CHR ''y''") simp_all

lemma filled_hex_group:
  "list_all2 filled t s \<Longrightarrow> \<forall>c \<in> set t. hexy c \<Longrightarrow> hex_group s"
proof (induction t arbitrary: s)
  case Nil
  then show ?case by (simp add: hex_group_def)
next
  case (Cons c t)
  from Cons.prems(1) obtain c' s' where s: "s = c' # s'" and h: "filled c c'"
    and r: "list_all2 filled t s'"
    by (auto simp: list_all2_Cons1)
  from Cons.prems(2) have hc: "hexy c" and ht: "\<forall>c \<in> set t. hexy c" by simp_all
  from Cons.IH[OF r ht] have "hex_group s'" .
  moreover from h hc have "is_hex c'" by (rule filled_hexy)
  ultimately show ?case using s by (simp add: hex_group_def)
qed

lemma filled_dash:
  assumes "list_all2 filled t s" "n < length t" "t ! n = CHR ''-''"
  shows "s ! n = CHR ''-''"
proof -
  from assms(1,2) have "filled (t ! n) (s ! n)" by (rule list_all2_nthD)
  with assms(3) have "filled (CHR ''-'') (s ! n)" by simp
  then show ?thesis by (simp add: filled_def)
qed

lemma filled_template_shape:
  assumes f: "list_all2 filled ''xxxxxxxx-xxxx-4xxx-yxxx-xxxxxxxxxxxx'' s"
  shows "uuid_shape s"
proof -
  let ?t = "''xxxxxxxx-xxxx-4xxx-yxxx-xxxxxxxxxxxx''"
  have len: "length s = 36" using list_all2_lengthD[OF f] by simp
  have g1: "hex_group (take 8 s)"
    by (rule filled_hex_group[OF list_all2_takeI[OF f, of 8]]) (simp add: hexy_def)
  have g2: "hex_group (take 4 (drop 9 s))"
    by (rule filled_hex_group[OF list_all2_takeI[OF list_all2_dropI[OF f, of 9], of 4]])
       (simp add: hexy_def)
  have g3: "hex_group (take 4 (drop 14 s))"
    by (rule filled_hex_group[OF list_all2_takeI[OF list_all2_dropI[OF f, of 14], of 4]])
       (simp add: hexy_def is_hex_def)
  have g4: "hex_group (take 4 (drop 19 s))"
    by (rule filled_hex_group[OF list_all2_takeI[OF list_all2_dropI[OF f, of 19], of 4]])
       (simp add: hexy_def)
  have g5: "hex_group (drop 24 s)"
    by (rule filled_hex_group[OF list_all2_dropI[OF f, of 24]]) (simp add: hexy_def)
  have d1: "s ! 8 = CHR ''-''" by (rule filled_dash[OF f]) simp_all
  have d2: "s ! 13 = CHR ''-''" by (rule filled_dash[OF f]) simp_all
  have d3: "s ! 18 = CHR ''-''" by (rule filled_dash[OF f]) simp_all
  have d4: "s ! 23 = CHR ''-''" by (rule filled_dash[OF f]) simp_all
  show ?thesis
    unfolding uuid_shape_def using len g1 g2 g3 g4 g5 d1 d2 d3 d4 by simp
qed


lemma shape_of_groups:
  assumes "length a = 8" "length b = 4" "length c = 4" "length d = 4" "length e = 12"
    and "hex_group a" "hex_group b" "hex_group c" "hex_group d" "hex_group e"
  shows "uuid_shape (a @ ''-'' @ b @ ''-'' @ c @ ''-'' @ d @ ''-'' @ e)"
  unfolding uuid_shape_def using assms by (simp add: nth_append)

lemma hex_digits_group: "hex_group (hex_digits w start n)"
  by (simp add: hex_group_def hex_digits_def hex_digit_is_hex)

lemma hex_digits_length: "length (hex_digits w start n) = n"
  by (simp add: hex_digits_def)

lemma randomUUID_shape: "uuid_shape (randomUUID w)"
  unfolding randomUUID_def
  by (rule shape_of_groups) (simp_all add: hex_digits_group hex_digits_length)

lemma generateUUID_shape:
  assumes "\<forall>k. 0 \<le> rnd k \<and> rnd k < 1"
  shows "uuid_shape (fst (generateUUID crypto rnd k))"
proof (cases crypto)
  case None
  have "uuid_shape (fst (replace_xy ''xxxxxxxx-xxxx-4xxx-yxxx-xxxxxxxxxxxx'' rnd k))"
    by (rule filled_template_shape) (rule replace_xy_filled[OF assms])
  then show ?thesis
    by (simp only: generateUUID_def None option.case)
next
  case (Some w)
  have "uuid_shape (randomUUID w)" by (rule randomUUID_shape)
  then show ?thesis
    by (simp only: generateUUID_def Some option.case fst_conv)
qed

lemma charAt_length: "length (charAt s i) \<le> 1"
  by (simp add: charAt_def)

lemma short_id_loop_length:
  "length (fst (short_id_loop n rnd k result)) \<le> length result + n"
proof (induction n arbitrary: k result)
  case 0
  then show ?case by simp
next
  case (Suc n)
  let ?c = "charAt chars \<lfloor>js_mul (rnd k) (rat_of_nat (length chars))\<rfloor>"
  have "length (fst (short_id_loop n rnd (Suc k) (result @ ?c))) \<le> length (result @ ?c) + n"
    by (rule Suc.IH)
  also have "\<dots> \<le> length result + Suc n" using charAt_length[of chars] by simp
  finally show ?case by simp
qed

lemma generateShortId_short: "length (fst (generateShortId rnd k)) \<le> 9"
  unfolding generateShortId_def using short_id_loop_length[of 9 rnd k "[]"] by simp

lemma generateShortId_no_shape: "\<not> uuid_shape (fst (generateShortId rnd k))"
  using generateShortId_short[of rnd k] by (auto simp: uuid_shape_def)

text \<open>
  Claim C10. Whatever the random draws (each \<^verbatim>\<open>Math.random()\<close> in \<open>[0, 1)\<close>), the primary key
  that \<open>generateUUID\<close> returns, by \<^verbatim>\<open>crypto.randomUUID\<close> or by the fallback, passes the
  identifier test of load, and the short key that \<open>generateShortId\<close> returns does not; so load
  asks for the first in the primary-key column and for the second in the short-key column: that
  is the one question its steps put to the remote, and the one a run records.
\<close>

theorem generated_keys_routed:
  assumes "\<forall>k. 0 \<le> rnd k \<and> rnd k < 1"
  shows "isUuid (fst (generateUUID crypto rnd k)) \<and>
         \<not> isUuid (fst (generateShortId rnd k')) \<and>
         queried (loadReportFromSupabase env (fst (generateUUID crypto rnd k))) =
           (if load_configured env then [(ColId, fst (generateUUID crypto rnd k))] else []) \<and>
         queried (loadReportFromSupabase env (fst (generateShortId rnd k'))) =
           (if load_configured env then [(ColShortId, fst (generateShortId rnd k'))] else []) \<and>
         (\<exists>continue. load_steps True store (fst (generateUUID crypto rnd k)) =
            Ask ColId (fst (generateUUID crypto rnd k)) continue) \<and>
         (\<exists>continue. load_steps True store (fst (generateShortId rnd k')) =
            Ask ColShortId (fst (generateShortId rnd k')) continue)"
proof -
  have u: "isUuid (fst (generateUUID crypto rnd k))"
    using generateUUID_shape[OF assms, of crypto k] by (simp add: isUuid_shape)
  have n: "\<not> isUuid (fst (generateShortId rnd k'))"
    using generateShortId_no_shape[of rnd k'] by (simp add: isUuid_shape)
  show ?thesis
    using u n load_steps_asks[of store "fst (generateUUID crypto rnd k)"]
      load_steps_asks[of store "fst (generateShortId rnd k')"]
    by (simp add: load_asks)
qed


lemma halves_uuid: "fst (generateUUID None halves 0) = ''88888888-8888-4888-8888-888888888888''"
  by (simp add: generateUUID_def halves_def to_int32_def to_hex_def hex_digit_def Let_def)

lemma halves_short: "fst (generateShortId halves 0) = ''FFFFFFFFF''"
  by code_simp

theorem generated_keys_routed_witness:
  "(\<forall>k. 0 \<le> halves k \<and> halves k < 1) \<and>
   fst (generateUUID None halves 0) = ''88888888-8888-4888-8888-888888888888'' \<and>
   isUuid (fst (generateUUID None halves 0)) \<and>
   fst (generateShortId halves 0) = ''FFFFFFFFF'' \<and>
   \<not> isUuid (fst (generateShortId halves 0)) \<and>
   queried (loadReportFromSupabase env_nothing (fst (generateUUID None halves 0))) =
     [(ColId, ''88888888-8888-4888-8888-888888888888'')] \<and>
   queried (loadReportFromSupabase env_nothing (fst (generateShortId halves 0))) =
     [(ColShortId, ''FFFFFFFFF'')]"
proof -
  have h: "\<forall>k. 0 \<le> halves k \<and> halves k < 1" by (simp add: halves_def)
  have c: "load_configured env_nothing" by (simp add: env_nothing_def)
  show ?thesis
    using h c halves_uuid halves_short generated_keys_routed[OF h, of None 0 0 env_nothing]
    by simp
qed



section \<open>Saving when the remote write fails\<close>

lemma save_recoverable:
  assumes "supabase_configured env" "upsert_reply env = UpsertError code message"
    "recoverable_code code"
  shows "save_outcome (saveReportToSupabase env inspection) = Inr (assign_keys env inspection) \<and>
         save_alerts (saveReportToSupabase env inspection) =
           [if code = ''42501'' then WarnPermissionDenied
            else if code = ''42P01'' then WarnTableMissing else WarnSchemaMismatch]"
  using assms unfolding saveReportToSupabase_def recoverable_code_def
  by (cases "assign_keys env inspection") (auto simp: Let_def)

lemma save_hard_error:
  assumes "supabase_configured env" "upsert_reply env = UpsertError code message"
    "\<not> recoverable_code code"
  shows "save_outcome (saveReportToSupabase env inspection) =
           Inl (''Supabase Error '' @ code @ '': '' @ message) \<and>
         save_alerts (saveReportToSupabase env inspection) = []"
  using assms unfolding saveReportToSupabase_def recoverable_code_def
  by (cases "assign_keys env inspection") (auto simp: Let_def)

lemma save_exception:
  assumes "supabase_configured env" "upsert_reply env = UpsertThrows msg"
  shows "save_outcome (saveReportToSupabase env inspection) =
           Inl (or_else msg ''Failed to save inspection to cloud.'') \<and>
         save_alerts (saveReportToSupabase env inspection) = []"
  using assms unfolding saveReportToSupabase_def
  by (cases "assign_keys env inspection") (auto simp: Let_def)

text \<open>
  Claim C3. With a configured client: when the upsert reports error code 42501 (permission
  denied), 42P01 (table missing) or PGRST204 (column missing), the save succeeds with the keys
  assigned locally at its start, and the one thing surfaced is the warning for that code; when
  it reports any other error code, or throws, the save fails with an error message and returns
  no keys, and nothing is surfaced by the routine itself.
\<close>

theorem save_remote_failure:
  assumes "supabase_configured env"
  shows "(upsert_reply env = UpsertError code message \<and> recoverable_code code \<longrightarrow>
            save_outcome (saveReportToSupabase env inspection) = Inr (assign_keys env inspection) \<and>
            save_alerts (saveReportToSupabase env inspection) =
              [if code = ''42501'' then WarnPermissionDenied
               else if code = ''42P01'' then WarnTableMissing else WarnSchemaMismatch]) \<and>
         (upsert_reply env = UpsertError code message \<and> \<not> recoverable_code code \<longrightarrow>
            save_outcome (saveReportToSupabase env inspection) =
              Inl (''Supabase Error '' @ code @ '': '' @ message) \<and>
            save_alerts (saveReportToSupabase env inspection) = []) \<and>
         (upsert_reply env = UpsertThrows msg \<longrightarrow>
            save_outcome (saveReportToSupabase env inspection) =
              Inl (or_else msg ''Failed to save inspection to cloud.'') \<and>
            save_alerts (saveReportToSupabase env inspection) = [])"
  using assms save_recoverable save_hard_error save_exception by blast

lemma keys_denied:
  "assign_keys env_denied doc_fresh = (''88888888-8888-4888-8888-888888888888'', ''FFFFFFFFF'')"
  by code_simp

theorem save_remote_failure_witness:
  "supabase_configured env_denied \<and>
   upsert_reply env_denied = UpsertError ''42501'' ''permission denied'' \<and>
   recoverable_code ''42501'' \<and>
   save_outcome (saveReportToSupabase env_denied doc_fresh) =
     Inr (''88888888-8888-4888-8888-888888888888'', ''FFFFFFFFF'') \<and>
   save_alerts (saveReportToSupabase env_denied doc_fresh) = [WarnPermissionDenied] \<and>
   supabase_configured env_failed \<and>
   upsert_reply env_failed = UpsertError ''23505'' ''duplicate key'' \<and>
   \<not> recoverable_code ''23505'' \<and>
   save_outcome (saveReportToSupabase env_failed doc_fresh) =
     Inl ''Supabase Error 23505: duplicate key''"
proof -
  have c1: "supabase_configured env_denied" by (simp add: env_denied_def)
  have u1: "upsert_reply env_denied = UpsertError ''42501'' ''permission denied''"
    by (simp add: env_denied_def)
  have r1: "recoverable_code ''42501''" by (simp add: recoverable_code_def)
  have c2: "supabase_configured env_failed" by (simp add: env_failed_def env_denied_def)
  have u2: "upsert_reply env_failed = UpsertError ''23505'' ''duplicate key''"
    by (simp add: env_failed_def)
  have r2: "\<not> recoverable_code ''23505''" by (simp add: recoverable_code_def)
  show ?thesis
    using c1 u1 r1 c2 u2 r2 keys_denied
      save_remote_failure[OF c1, of "''42501''" "''permission denied''" doc_fresh None]
      save_remote_failure[OF c2, of "''23505''" "''duplicate key''" doc_fresh None]
    by simp
qed


section \<open>Loading an identifier that no backend has\<close>

lemma find_None: "\<forall>x \<in> set xs. \<not> P x \<Longrightarrow> find P xs = None"
  by (induction xs) auto

lemma local_nothing:
  assumes "\<not> in_local store ident"
  shows "local_fallback u ident store = Inr None \<or> local_fallback u ident store = Inl SyntaxError"
proof (cases store)
  case LsNull
  then show ?thesis by (simp add: local_fallback_def)
next
  case LsUnparsable
  then show ?thesis by (simp add: local_fallback_def)
next
  case (LsMap m)
  let ?P = "\<lambda>record. case rec_data record of None \<Rightarrow> False | Some p \<Rightarrow> shortId p = Some ident"
  from assms LsMap have key: "map_of m ident = None"
    and none: "\<forall>record \<in> set (map snd m). \<not> ?P record"
    unfolding in_local_def by simp_all
  from none have "find ?P (map snd m) = None" by (rule find_None)
  with key LsMap show ?thesis by (simp add: local_fallback_def)
qed

lemma remote_nothing:
  assumes "\<not> in_remote env ident"
  shows "loaded (loadReportFromSupabase env ident) =
           (case local_fallback (isUuid ident) ident (load_local env) of Inl e \<Rightarrow> None | Inr r \<Rightarrow> r)"
proof (cases "load_configured env")
  case False
  then show ?thesis
    by (simp add: load_run load_steps_def Let_def)
next
  case True
  let ?col = "if isUuid ident then ColId else ColShortId"
  have unusable: "\<not> usable_reply (remote_query env ?col ident)"
    using assms True unfolding in_remote_def by (cases "isUuid ident") simp_all
  have run: "loaded (loadReportFromSupabase env ident) =
               fst (run_remote (remote_query env) (load_steps True (load_local env) ident))"
    using True by (simp add: load_run)
  show ?thesis
  proof (cases "remote_query env ?col ident")
    case QueryThrows
    then show ?thesis
      unfolding run by (simp add: load_steps_def Let_def)
  next
    case (QueryResult error data)
    show ?thesis
    proof (cases "error \<or> data = None")
      case True
      with QueryResult show ?thesis
        unfolding run by (auto simp: load_steps_def Let_def)
    next
      case False
      then obtain row where row: "data = Some row" and ok: "\<not> error" by auto
      with unusable QueryResult have "row_data row = None"
        by (simp add: usable_reply_def)
      with QueryResult row ok show ?thesis
        unfolding run by (simp add: load_steps_def Let_def)
    qed
  qed
qed

text \<open>
  Claim C7. When the remote backend has no usable row for the identifier in either column (or
  is not configured, answers with an error, or throws) and the local store has neither a record
  under the identifier nor a record whose payload carries it as short key (in particular when
  the local store is empty, unreadable or unparsable), load returns "not found". The result of
  the routine is a value in every case: what the fallback throws is caught inside it.
\<close>

theorem load_not_found:
  assumes "\<not> in_remote env ident" "\<not> in_local (load_local env) ident"
  shows "loaded (loadReportFromSupabase env ident) = None"
proof -
  let ?local = "local_fallback (isUuid ident) ident (load_local env)"
  from local_nothing[OF assms(2), of "isUuid ident"]
  have "(case ?local of Inl e \<Rightarrow> None | Inr r \<Rightarrow> r) = None"
  proof
    assume "?local = Inr None"
    then show ?thesis by simp
  next
    assume "?local = Inl SyntaxError"
    then show ?thesis by simp
  qed
  with remote_nothing[OF assms(1)] show ?thesis by simp
qed

theorem load_not_found_witness:
  "\<not> in_remote env_nothing ''aB3dE5fG7'' \<and> \<not> in_local (load_local env_nothing) ''aB3dE5fG7'' \<and>
   loaded (loadReportFromSupabase env_nothing ''aB3dE5fG7'') = None"
proof -
  have r: "\<not> in_remote env_nothing ''aB3dE5fG7''"
    by (simp add: in_remote_def env_nothing_def usable_reply_def)
  have l: "\<not> in_local (load_local env_nothing) ''aB3dE5fG7''"
    by (simp add: in_local_def env_nothing_def)
  show ?thesis using r l load_not_found[OF r l] by simp
qed




section \<open>Progress\<close>

text \<open>
  \<open>calculateProgress\<close> is a function of the document alone, so computing it again without a
  mutation in between gives the same value. It is 0 when no item is visible, 0 when every
  visible item is untouched, and 100 when there are visible items and none is untouched: the
  quotients 0 and 1 and the products 0 and 100 are exact in binary64.
\<close>

lemma forty_counts:
  "length (visible_items doc_forty) = 40 \<and>
   length (filter (\<lambda>i. item_status i \<noteq> Untouched) (visible_items doc_forty)) = 23"
  by (simp add: visible_items_def doc_forty_def new_profile_def new_section_def new_item_def
        filter_map o_def)

lemma js_forty: "Math_round (js_mul (js_div 23 40) 100) = 57"
  by code_simp

lemma exact_forty: "\<lfloor>100 * (23::rat) / 40 + 1 / 2\<rfloor> = 58"
  by code_simp

lemma fl_one: "fl 1 = 1"
  by code_simp

lemma fl_hundred: "fl 100 = 100"
  by code_simp

lemma round_zero: "Math_round 0 = 0"
  by code_simp

lemma round_hundred: "Math_round 100 = 100"
  by code_simp

lemma progress_eq:
  "calculateProgress (Some d) =
     (let total = length (visible_items d);
          completed = length (filter (\<lambda>i. item_status i \<noteq> Untouched) (visible_items d))
      in if total = 0 then 0
         else Math_round (js_mul (js_div (of_nat completed) (of_nat total)) 100))"
  by (simp add: calculateProgress_def visible_items_def Let_def)

lemma forty_code: "calculateProgress (Some doc_forty) = 57"
  using forty_counts js_forty by (simp add: progress_eq Let_def)

lemma forty_formula: "progress_formula doc_forty = 58"
  using forty_counts exact_forty by (simp add: progress_formula_def Let_def)

lemma progress_none_visible: "visible_items d = [] \<Longrightarrow> calculateProgress (Some d) = 0"
  by (simp add: progress_eq)

lemma progress_all_untouched:
  "\<forall>i \<in> set (visible_items d). item_status i = Untouched \<Longrightarrow> calculateProgress (Some d) = 0"
proof -
  assume "\<forall>i \<in> set (visible_items d). item_status i = Untouched"
  then have "filter (\<lambda>i. item_status i \<noteq> Untouched) (visible_items d) = []"
    by (simp add: filter_empty_conv)
  moreover have "js_mul (js_div 0 (rat_of_nat (length (visible_items d)))) 100 = 0"
    by (simp add: js_div_def js_mul_def fl_def)
  ultimately show ?thesis
    by (simp add: progress_eq round_zero)
qed

lemma progress_all_done:
  assumes "visible_items d \<noteq> []" "\<forall>i \<in> set (visible_items d). item_status i \<noteq> Untouched"
  shows "calculateProgress (Some d) = 100"
proof -
  from assms(2) have "filter (\<lambda>i. item_status i \<noteq> Untouched) (visible_items d) = visible_items d"
    by (simp add: filter_id_conv)
  moreover have "js_mul (js_div (rat_of_nat (length (visible_items d)))
                               (rat_of_nat (length (visible_items d)))) 100 = 100"
    using assms(1) by (simp add: js_div_def js_mul_def fl_one fl_hundred)
  ultimately show ?thesis
    using assms(1) by (simp add: progress_eq round_hundred)
qed


text \<open>
  The accuracy of the binary64 computation. With \<open>c \<le> t < 2^32\<close> (an array has fewer than
  \<open>2^32\<close> elements), the quotient and the product are each off by at most half a unit in the
  last place, together less than \<open>2^-45\<close>, while \<open>100 c / t\<close> is a multiple of \<open>1 / t\<close>: so the
  value returned is an integer nearest to \<open>100 c / t\<close>. It is the value of the specification's
  formula, except possibly when \<open>100 c / t\<close> lies exactly halfway between two integers, where
  it can be the lower one.
\<close>

lemma pow2_powi: "pow2 e = 2 powi e"
  by (simp add: pow2_def power_int_def inverse_eq_divide power_one_over)

lemma pow2_pos: "0 < pow2 e"
  by (simp add: pow2_powi)

lemma pow2_add: "pow2 (a + b) = pow2 a * pow2 b"
  by (simp add: pow2_powi power_int_add)

lemma pow2_mono: "a \<le> b \<Longrightarrow> pow2 a \<le> pow2 b"
  by (simp add: pow2_powi power_int_increasing)

lemma ilog2_bounds:
  "1 \<le> n \<Longrightarrow> 0 \<le> ilog2 n \<and> 2 ^ nat (ilog2 n) \<le> n \<and> n < 2 * 2 ^ nat (ilog2 n)"
proof (induction n rule: ilog2.induct)
  case (1 n)
  show ?case
  proof (cases "n < 2")
    case True
    with "1.prems" have "n = 1" by simp
    then show ?thesis by (simp add: ilog2.simps)
  next
    case False
    then have h: "1 \<le> n div 2" by simp
    from "1.IH"[OF False h] have ih: "0 \<le> ilog2 (n div 2)"
      "2 ^ nat (ilog2 (n div 2)) \<le> n div 2" "n div 2 < 2 * 2 ^ nat (ilog2 (n div 2))"
      by simp_all
    have e: "ilog2 n = 1 + ilog2 (n div 2)" using False by (simp add: ilog2.simps)
    have n: "nat (1 + ilog2 (n div 2)) = Suc (nat (ilog2 (n div 2)))" using ih(1) by simp
    have "2 * 2 ^ nat (ilog2 (n div 2)) \<le> n" using ih(2) by linarith
    moreover have "n < 2 * (2 * 2 ^ nat (ilog2 (n div 2)))" using ih(3) by linarith
    ultimately show ?thesis using ih(1) by (simp add: e n)
  qed
qed

lemma round_half_even_err: "\<bar>rat_of_int (round_half_even z) - z\<bar> \<le> 1 / 2"
proof -
  have "rat_of_int \<lfloor>z\<rfloor> \<le> z" "z < rat_of_int \<lfloor>z\<rfloor> + 1" by linarith+
  then show ?thesis
    unfolding round_half_even_def Let_def by (auto simp: abs_le_iff)
qed


lemma expo_le:
  assumes "0 < x"
  shows "pow2 (expo x) \<le> x"
proof -
  obtain p q where pq: "quotient_of x = (p, q)" by (cases "quotient_of x")
  then have q: "0 < q" and x: "x = rat_of_int p / rat_of_int q"
    by (simp_all add: quotient_of_denom_pos quotient_of_div)
  from assms x q have p: "0 < p" by (simp add: zero_less_divide_iff)
  let ?a = "ilog2 p" and ?b = "ilog2 q"
  from ilog2_bounds[of p] p have a: "0 \<le> ?a" "2 ^ nat ?a \<le> p" by simp_all
  from ilog2_bounds[of q] q have b: "0 \<le> ?b" "q < 2 * 2 ^ nat ?b" by simp_all
  have e: "expo x = (if x < pow2 (?a - ?b) then ?a - ?b - 1 else ?a - ?b)"
    by (simp add: expo_def pq Let_def)
  show ?thesis
  proof (cases "x < pow2 (?a - ?b)")
    case False
    with e show ?thesis by simp
  next
    case True
    have "pow2 (?a - ?b - 1) = pow2 ?a / (2 * pow2 ?b)"
      by (simp add: pow2_powi power_int_diff)
    also have "pow2 ?a = 2 ^ nat ?a" using a(1) by (simp add: pow2_def)
    also have "pow2 ?b = 2 ^ nat ?b" using b(1) by (simp add: pow2_def)
    finally have eq: "pow2 (?a - ?b - 1) = 2 ^ nat ?a / (2 * 2 ^ nat ?b)" .
    have n: "(2::rat) ^ nat ?a \<le> rat_of_int p"
      using a(2) by (metis of_int_le_iff of_int_numeral of_int_power)
    have d: "rat_of_int q < 2 * 2 ^ nat ?b"
      using b(2) by (metis of_int_less_iff of_int_numeral of_int_power of_int_mult)
    have "2 ^ nat ?a / (2 * 2 ^ nat ?b) \<le> rat_of_int p / (2 * 2 ^ nat ?b)"
      using n by (simp add: divide_right_mono)
    also have "\<dots> \<le> rat_of_int p / rat_of_int q"
      using d q p by (intro divide_left_mono) (simp_all add: less_imp_le)
    finally show ?thesis using e True eq x by simp
  qed
qed

lemma expo_upper:
  assumes "0 < x" "x \<le> pow2 k" "0 \<le> k"
  shows "expo x \<le> k"
proof -
  have "pow2 (expo x) \<le> pow2 k" using expo_le[OF assms(1)] assms(2) by simp
  then have "(2::rat) powi expo x \<le> 2 powi k" by (simp add: pow2_powi)
  with assms(3) show ?thesis
    using power_int_le_imp_le_exp[of "2::rat" "expo x" k] by simp
qed

lemma fl_err:
  assumes "0 < x"
  shows "\<bar>fl x - x\<bar> \<le> pow2 (expo x - 53)"
proof -
  let ?e = "expo x"
  let ?m = "rat_of_int (round_half_even (x * pow2 (52 - ?e)))"
  have f: "fl x = ?m * pow2 (?e - 52)"
    using assms by (simp add: fl_def Let_def)
  have one: "pow2 (52 - ?e) * pow2 (?e - 52) = 1"
    by (simp flip: pow2_add) (simp add: pow2_def)
  have half: "pow2 (?e - 52) / 2 = pow2 (?e - 53)"
    by (simp add: pow2_powi power_int_diff)
  have "\<bar>?m - x * pow2 (52 - ?e)\<bar> \<le> 1 / 2" by (rule round_half_even_err)
  then have "\<bar>?m - x * pow2 (52 - ?e)\<bar> * pow2 (?e - 52) \<le> 1 / 2 * pow2 (?e - 52)"
    using pow2_pos[of "?e - 52"] by (intro mult_right_mono) simp_all
  also have "\<bar>?m - x * pow2 (52 - ?e)\<bar> * pow2 (?e - 52) =
             \<bar>(?m - x * pow2 (52 - ?e)) * pow2 (?e - 52)\<bar>"
    using pow2_pos[of "?e - 52"] by (simp add: abs_mult)
  also have "(?m - x * pow2 (52 - ?e)) * pow2 (?e - 52) = ?m * pow2 (?e - 52) - x"
    using one by (simp add: algebra_simps)
  finally show ?thesis using f half by simp
qed


lemma fl_err_below:
  assumes "0 < x" "x \<le> pow2 k" "0 \<le> k"
  shows "\<bar>fl x - x\<bar> \<le> pow2 (k - 53)"
proof -
  have "expo x - 53 \<le> k - 53" using expo_upper[OF assms] by simp
  then have "pow2 (expo x - 53) \<le> pow2 (k - 53)" by (rule pow2_mono)
  with fl_err[OF assms(1)] show ?thesis by linarith
qed

lemma product_err:
  assumes x: "0 < x" "x \<le> 1" "1 / 2 ^ 32 < x"
  shows "\<bar>fl (fl x * 100) - 100 * x\<bar> \<le> 1 / 2 ^ 45"
proof -
  have "\<bar>fl x - x\<bar> \<le> pow2 (0 - 53)"
    using x by (intro fl_err_below) (simp_all add: pow2_def)
  then have e1: "\<bar>fl x - x\<bar> \<le> 1 / 2 ^ 53" by (simp add: pow2_def)
  let ?z = "fl x * 100"
  have lo: "x - 1 / 2 ^ 53 \<le> fl x" and hi: "fl x \<le> x + 1 / 2 ^ 53"
    using e1 by linarith+
  have small: "(1::rat) / 2 ^ 53 < 1 / 2 ^ 32" by simp
  have fpos: "0 < fl x" using lo small x(3) by linarith
  then have zpos: "0 < ?z" by simp
  have "fl x \<le> 1 + 1 / 2 ^ 53" using hi x(2) by linarith
  also have "\<dots> \<le> 128 / 100" by simp
  finally have "?z \<le> 128" by simp
  then have zle: "?z \<le> pow2 7" by (simp add: pow2_def)
  have "\<bar>fl ?z - ?z\<bar> \<le> pow2 (7 - 53)"
    using zpos zle by (intro fl_err_below) simp_all
  then have e2: "\<bar>fl ?z - ?z\<bar> \<le> 1 / 2 ^ 46" by (simp add: pow2_def)
  have "\<bar>?z - 100 * x\<bar> = 100 * \<bar>fl x - x\<bar>" by (simp add: abs_if)
  also have "\<dots> \<le> 100 * (1 / 2 ^ 53)" using e1 by (intro mult_left_mono) simp_all
  also have "\<dots> \<le> 1 / 2 ^ 46" by simp
  finally have e3: "\<bar>?z - 100 * x\<bar> \<le> 1 / 2 ^ 46" .
  have "\<bar>fl ?z - 100 * x\<bar> \<le> \<bar>fl ?z - ?z\<bar> + \<bar>?z - 100 * x\<bar>" by simp
  also have "\<dots> \<le> 1 / 2 ^ 46 + 1 / 2 ^ 46" using e2 e3 by (rule add_mono)
  also have "\<dots> = 1 / 2 ^ 45" by simp
  finally show ?thesis .
qed


lemma nearest_from_close:
  fixes c t :: nat and y :: rat
  assumes t: "0 < t" "t < 2 ^ 32"
    and close: "\<bar>y - 100 * rat_of_nat c / rat_of_nat t\<bar> \<le> 1 / 2 ^ 45"
  shows "\<bar>rat_of_int \<lfloor>y + 1 / 2\<rfloor> - 100 * rat_of_nat c / rat_of_nat t\<bar> \<le> 1 / 2"
proof -
  let ?T = "rat_of_nat t" and ?C = "rat_of_nat c"
  let ?q = "100 * ?C / ?T"
  let ?r = "\<lfloor>y + 1 / 2\<rfloor>"
  let ?R = "rat_of_int ?r"
  let ?N = "200 * int c - 2 * ?r * int t"
  have T: "0 < ?T" using t(1) by simp
  have Tlt: "?T < 2 ^ 32" using t(2) by (metis of_nat_less_iff of_nat_numeral of_nat_power)
  have N: "rat_of_int ?N = (?q - ?R) * (2 * ?T)"
    using T by (simp add: field_simps)
  have slack: "1 / 2 ^ 45 * (2 * ?T) < 1"
  proof -
    have "1 / 2 ^ 45 * (2 * ?T) < 1 / 2 ^ 45 * (2 * 2 ^ 32)"
      using Tlt by (intro mult_strict_left_mono) simp_all
    also have "\<dots> \<le> 1" by simp
    finally show ?thesis .
  qed
  have fl1: "?R \<le> y + 1 / 2" and fl2: "y + 1 / 2 < ?R + 1" by linarith+
  from close have c1: "?q \<le> y + 1 / 2 ^ 45" and c2: "y - 1 / 2 ^ 45 \<le> ?q"
    by linarith+
  have up: "?q - ?R < 1 / 2 + 1 / 2 ^ 45" using c1 fl2 by linarith
  have lo: "- (1 / 2) - 1 / 2 ^ 45 \<le> ?q - ?R" using c2 fl1 by linarith
  have "(?q - ?R) * (2 * ?T) < (1 / 2 + 1 / 2 ^ 45) * (2 * ?T)"
    using up T by (intro mult_strict_right_mono) simp_all
  also have "\<dots> = ?T + 1 / 2 ^ 45 * (2 * ?T)" by (simp add: algebra_simps)
  also have "\<dots> < ?T + 1" using slack by simp
  finally have "rat_of_int ?N < rat_of_int (int t + 1)" using N by simp
  then have "?N < int t + 1" by (simp only: of_int_less_iff)
  then have Nup: "?N \<le> int t" by simp
  have "- ?T - 1 < - ?T - 1 / 2 ^ 45 * (2 * ?T)" using slack by simp
  also have "\<dots> = (- (1 / 2) - 1 / 2 ^ 45) * (2 * ?T)" by (simp add: algebra_simps)
  also have "\<dots> \<le> (?q - ?R) * (2 * ?T)"
    using lo T by (intro mult_right_mono) simp_all
  finally have "rat_of_int (- int t - 1) < rat_of_int ?N" using N by simp
  then have "- int t - 1 < ?N" by (simp only: of_int_less_iff)
  then have Nlo: "- int t \<le> ?N" by simp
  from Nup Nlo have "\<bar>?N\<bar> \<le> int t" by simp
  then have "\<bar>rat_of_int ?N\<bar> \<le> ?T"
    by (metis of_int_abs of_int_le_iff of_int_of_nat_eq)
  then have "\<bar>(?q - ?R) * (2 * ?T)\<bar> \<le> ?T" using N by simp
  then have "\<bar>?q - ?R\<bar> * (2 * ?T) \<le> 1 / 2 * (2 * ?T)"
    using T by (simp add: abs_mult)
  then have "\<bar>?q - ?R\<bar> \<le> 1 / 2"
    using T by (simp only: mult_le_cancel_right)
  then show ?thesis by (simp add: abs_minus_commute)
qed


lemma round_product_nearest:
  fixes c t :: nat
  assumes "c \<le> t" "0 < t" "t < 2 ^ 32"
  shows "\<bar>rat_of_int (Math_round (js_mul (js_div (rat_of_nat c) (rat_of_nat t)) 100)) -
          100 * rat_of_nat c / rat_of_nat t\<bar> \<le> 1 / 2"
proof (cases "c = 0")
  case True
  have "\<lfloor>(1::rat) / 2\<rfloor> = 0" by (simp add: floor_eq_iff)
  with True show ?thesis
    by (simp add: js_div_def js_mul_def fl_def Math_round_def)
next
  case False
  let ?x = "rat_of_nat c / rat_of_nat t"
  have T: "0 < rat_of_nat t" using assms(2) by simp
  have Tlt: "rat_of_nat t < 2 ^ 32"
    using assms(3) by (metis of_nat_less_iff of_nat_numeral of_nat_power)
  have C: "1 \<le> rat_of_nat c" using False by (simp add: Suc_le_eq)
  have x0: "0 < ?x" using False T by simp
  have x1: "?x \<le> 1" using assms(1) T by simp
  have "1 / 2 ^ 32 < 1 / rat_of_nat t"
    using T Tlt by (intro divide_strict_left_mono) simp_all
  also have "\<dots> \<le> ?x" using C T by (intro divide_right_mono) simp_all
  finally have x2: "1 / 2 ^ 32 < ?x" .
  have "\<bar>fl (fl ?x * 100) - 100 * ?x\<bar> \<le> 1 / 2 ^ 45"
    using x0 x1 x2 by (rule product_err)
  then have "\<bar>fl (fl ?x * 100) - 100 * rat_of_nat c / rat_of_nat t\<bar> \<le> 1 / 2 ^ 45"
    by simp
  from nearest_from_close[OF assms(2,3) this] show ?thesis
    by (simp add: js_div_def js_mul_def Math_round_def)
qed

lemma nearest_is_round_or_tie:
  fixes r :: int and q :: rat
  assumes "\<bar>rat_of_int r - q\<bar> \<le> 1 / 2"
  shows "r = \<lfloor>q + 1 / 2\<rfloor> \<or> (r = \<lfloor>q + 1 / 2\<rfloor> - 1 \<and> q = rat_of_int r + 1 / 2)"
proof -
  let ?F = "\<lfloor>q + 1 / 2\<rfloor>"
  have f1: "rat_of_int ?F \<le> q + 1 / 2" and f2: "q + 1 / 2 < rat_of_int ?F + 1" by linarith+
  from assms have a1: "rat_of_int r \<le> q + 1 / 2" and a2: "q - 1 / 2 \<le> rat_of_int r" by linarith+
  have "rat_of_int r < rat_of_int ?F + 1" using a1 f2 by linarith
  then have "rat_of_int r < rat_of_int (?F + 1)" by simp
  then have "r < ?F + 1" by (simp only: of_int_less_iff)
  then have up: "r \<le> ?F" by simp
  have "rat_of_int ?F - 2 < rat_of_int r" using a2 f1 by linarith
  then have "rat_of_int (?F - 2) < rat_of_int r" by simp
  then have "?F - 2 < r" by (simp only: of_int_less_iff)
  then have lo: "?F - 1 \<le> r" by simp
  show ?thesis
  proof (cases "r = ?F")
    case True
    then show ?thesis by simp
  next
    case False
    with up lo have r: "r = ?F - 1" by simp
    then have "rat_of_int r = rat_of_int ?F - 1" by simp
    with a2 f1 have "q = rat_of_int r + 1 / 2" by linarith
    with r show ?thesis by simp
  qed
qed


lemma progress_nearest:
  assumes "visible_items d \<noteq> []" "length (visible_items d) < 2 ^ 32"
  shows "calculateProgress (Some d) = progress_formula d \<or>
         (calculateProgress (Some d) = progress_formula d - 1 \<and>
          100 * rat_of_nat (length (filter (\<lambda>i. item_status i \<noteq> Untouched) (visible_items d))) /
            rat_of_nat (length (visible_items d)) =
          rat_of_int (calculateProgress (Some d)) + 1 / 2)"
proof -
  let ?t = "length (visible_items d)"
  let ?c = "length (filter (\<lambda>i. item_status i \<noteq> Untouched) (visible_items d))"
  have t: "0 < ?t" using assms(1) by simp
  have c: "?c \<le> ?t" by simp
  have code: "calculateProgress (Some d) =
                Math_round (js_mul (js_div (rat_of_nat ?c) (rat_of_nat ?t)) 100)"
    using assms(1) by (simp add: progress_eq Let_def)
  have formula: "progress_formula d = \<lfloor>100 * rat_of_nat ?c / rat_of_nat ?t + 1 / 2\<rfloor>"
    using assms(1) by (simp add: progress_formula_def Let_def)
  from round_product_nearest[OF c t assms(2)]
  have "\<bar>rat_of_int (calculateProgress (Some d)) - 100 * rat_of_nat ?c / rat_of_nat ?t\<bar> \<le> 1 / 2"
    by (simp only: code)
  from nearest_is_round_or_tie[OF this] show ?thesis
    by (simp only: formula)
qed

text \<open>
  Claim C2 at a document of forty visible items, twenty-three of them done. The exact
  percentage is 57.5, a tie, and the formula of the specification gives round(57.5) = 58. The code
  divides first: 23 / 40 is rounded to the binary64 value 2589569785738035 / 2^52, just below
  0.575; its product with 100 is rounded to 8092405580431359 / 2^47, just below 57.5; and
  \<open>Math.round\<close> of that is 57.
\<close>

theorem progress_forty_items:
  "length (visible_items doc_forty) = 40 \<and>
   length (filter (\<lambda>i. item_status i \<noteq> Untouched) (visible_items doc_forty)) = 23 \<and>
   js_div 23 40 = 2589569785738035 / 2 ^ 52 \<and>
   js_mul (js_div 23 40) 100 = 8092405580431359 / 2 ^ 47 \<and>
   calculateProgress (Some doc_forty) = 57 \<and>
   progress_formula doc_forty = 58"
proof -
  have d: "js_div 23 40 = 2589569785738035 / 2 ^ 52" by code_simp
  have m: "js_mul (js_div 23 40) 100 = 8092405580431359 / 2 ^ 47" by code_simp
  show ?thesis using forty_counts forty_code forty_formula d m by simp
qed

end
